theory Spec2Isabelle
  imports Main "HOL-Library.Word" "HOL-Library.List_Lexorder"
begin

section \<open>Data model\<close>

text \<open>
  Bytes are 8-bit words, Go's \<^verbatim>\<open>uint64\<close> is a 64-bit word. A file size is an
  \<^verbatim>\<open>int64\<close>; no arithmetic on it can overflow in this program, so it is an \<open>int\<close>,
  and the one conversion \<^verbatim>\<open>uint64(size)\<close> is \<open>word_of_int\<close>.
\<close>

type_synonym byte = "8 word"
type_synonym bytes = "byte list"
type_synonym uint64 = "64 word"

text \<open>
  Go errors as values. \<open>Failure\<close> is an error raised inside a library (os, gob, bolt,
  storage), \<open>Errorf\<close> is \<^verbatim>\<open>fmt.Errorf\<close>, \<open>Wrap\<close> is \<^verbatim>\<open>errors.Wrap\<close> and
  \<^verbatim>\<open>errors.Wrapf\<close> with the format string (its arguments are left out), \<open>Panic\<close>
  is a run-time panic.
\<close>

datatype error =
    ErrObjectNotExist
  | EOF
  | Failure string
  | Panic string
  | Errorf string
  | Wrap string error

text \<open>
  \<^verbatim>\<open>type Entry struct\<close> of db.go. \<open>Hash\<close> is a \<^verbatim>\<open>[32]byte\<close>: a byte list that the
  program only ever fills with 32 bytes. \<open>MD5\<close> is a slice; the program only looks at its
  length and its bytes, so \<^verbatim>\<open>nil\<close> and the empty slice are both \<open>[]\<close>.
\<close>

record Entry =
  ID :: uint64
  Path :: string
  Cloud :: string
  Size :: int
  Hash :: bytes
  MD5 :: bytes

text \<open>A file as \<^verbatim>\<open>os.Open\<close> sees it: its bytes, or a file that opens and cannot be read
  (a directory, a failing disk).\<close>

datatype File = Regular bytes | Unreadable

text \<open>The attributes of a remote object that cloud.go reads.\<close>

record ObjectAttrs =
  attrSize :: int
  attrMetadata :: "string \<Rightarrow> string"
  attrMD5 :: bytes

text \<open>
  The libraries the program calls and whose code is not part of it are parameters of the
  model: the file system (\<^verbatim>\<open>os.Open\<close>), \<^verbatim>\<open>filepath.Rel\<close> and \<^verbatim>\<open>filepath.Join\<close>,
  \<^verbatim>\<open>sha256.Sum256\<close>, the gob encoder and decoder of an \<open>Entry\<close>, and the MD5 checksum
  the remote store computes for an uploaded object.
\<close>

record Env =
  Open :: "string \<Rightarrow> File option"
  Rel :: "string \<Rightarrow> string \<Rightarrow> error + string"
  Join :: "string \<Rightarrow> string \<Rightarrow> string"
  Sum256 :: "bytes \<Rightarrow> bytes"
  Encode :: "Entry \<Rightarrow> error + bytes"
  Decode :: "bytes \<Rightarrow> error + Entry"
  RemoteMD5 :: "bytes \<Rightarrow> bytes"

section \<open>The metadata store (db.go)\<close>

subsection \<open>The bolt bucket\<close>

text \<open>
  A bucket is its key/value pairs in key order (bolt compares keys bytewise, which is the
  lexicographic order on byte lists) and its sequence counter. \<open>Put\<close> refuses an empty
  key, a key above 32768 bytes and a value above \<open>2^31 - 2\<close> bytes, as bolt does.
\<close>

record Bucket =
  pairs :: "(bytes \<times> bytes) list"
  sequence :: uint64

definition Get :: "Bucket \<Rightarrow> bytes \<Rightarrow> bytes option" where
  "Get bkt key = map_of (pairs bkt) key"

fun put_pair :: "bytes \<Rightarrow> bytes \<Rightarrow> (bytes \<times> bytes) list \<Rightarrow> (bytes \<times> bytes) list" where
  "put_pair k v [] = [(k, v)]"
| "put_pair k v ((k', v') # ps) =
     (if k = k' then (k, v) # ps
      else if k < k' then (k, v) # (k', v') # ps
      else (k', v') # put_pair k v ps)"

definition Put :: "Bucket \<Rightarrow> bytes \<Rightarrow> bytes \<Rightarrow> error + Bucket" where
  "Put bkt key v =
     (if key = [] then Inl (Failure ''key required'')
      else if length key > 32768 then Inl (Failure ''key too large'')
      else if length v > 2147483646 then Inl (Failure ''value too large'')
      else Inr (bkt\<lparr>pairs := put_pair key v (pairs bkt)\<rparr>))"

definition NextSequence :: "Bucket \<Rightarrow> error + (uint64 \<times> Bucket)" where
  "NextSequence bkt = Inr (sequence bkt + 1, bkt\<lparr>sequence := sequence bkt + 1\<rparr>)"

text \<open>
  \<^verbatim>\<open>type DB struct\<close>: the bucket of the backup's name (created by \<^verbatim>\<open>CreateDB\<close>), and
  the outcomes of the commits to come, \<open>True\<close> for a commit that succeeds; when the list
  is used up every commit succeeds. A commit that fails (a full disk) is how a bolt
  transaction fails although its function returned no error.
\<close>

record DB =
  bucket :: Bucket
  commits :: "bool list"

text \<open>
  \<^verbatim>\<open>bolt.DB.Update\<close>: the function runs on the bucket; when it returns an error the
  transaction is rolled back, otherwise it is committed. The function's first result
  stands for the variables of the caller it assigns (the named results of \<open>Add\<close>), which
  keep their values when the transaction fails.
\<close>

definition tx_Update ::
  "DB \<Rightarrow> (Bucket \<Rightarrow> 'r \<times> (error + Bucket)) \<Rightarrow> 'r \<times> error option \<times> DB" where
  "tx_Update d fn =
     (case fn (bucket d) of
        (r, Inl err) \<Rightarrow> (r, Some err, d)
      | (r, Inr bkt') \<Rightarrow>
          (case commits d of
             [] \<Rightarrow> (r, None, d\<lparr>bucket := bkt'\<rparr>)
           | ok # cs \<Rightarrow>
               if ok then (r, None, d\<lparr>bucket := bkt', commits := cs\<rparr>)
               else (r, Some (Failure ''commit''), d\<lparr>commits := cs\<rparr>)))"

subsection \<open>Keys and entries\<close>

definition PutUint64 :: "uint64 \<Rightarrow> bytes" where
  "PutUint64 v = map (\<lambda>i. ucast (drop_bit (8 * i) v)) [0..<8]"

text \<open>\<^verbatim>\<open>computeKey\<close>: 8 bytes of the size, little endian, then the 32 bytes of the hash.\<close>

definition computeKey :: "int \<Rightarrow> bytes \<Rightarrow> bytes" where
  "computeKey sz sha256 = PutUint64 (word_of_int sz) @ sha256"

definition Entry_encode :: "Env \<Rightarrow> Entry \<Rightarrow> error + bytes" where
  "Entry_encode env i =
     (case Encode env i of
        Inl err \<Rightarrow> Inl (Wrap ''cannot encode the entry'' err)
      | Inr b \<Rightarrow> Inr b)"

definition decodeEntry :: "Env \<Rightarrow> bytes \<Rightarrow> error + Entry" where
  "decodeEntry env b =
     (case Decode env b of
        Inl err \<Rightarrow> Inl (Wrap ''failed to decode'' err)
      | Inr e \<Rightarrow> Inr e)"

definition encodeAndPut :: "Env \<Rightarrow> Bucket \<Rightarrow> bytes \<Rightarrow> Entry \<Rightarrow> error + Bucket" where
  "encodeAndPut env bkt key e =
     (case Entry_encode env e of
        Inl err \<Rightarrow> Inl (Wrap ''cannot encode db entry'' err)
      | Inr b \<Rightarrow>
          (case Put bkt key b of
             Inl err \<Rightarrow> Inl (Wrap ''cannot put the entry in the dababase'' err)
           | Inr bkt' \<Rightarrow> Inr bkt'))"

subsection \<open>Update, Add, CheckMissing\<close>

text \<open>\<^verbatim>\<open>type UpdateFn func(*Entry) error\<close>: the entry as mutated, or the error.\<close>

type_synonym UpdateFn = "Entry \<Rightarrow> error + Entry"

definition Update_tx :: "Env \<Rightarrow> bytes \<Rightarrow> UpdateFn \<Rightarrow> Bucket \<Rightarrow> unit \<times> (error + Bucket)" where
  "Update_tx env key fn bkt =
     (case Get bkt key of
        None \<Rightarrow> ((), Inl (Errorf ''cannot find element with key %X''))
      | Some v \<Rightarrow>
          (case decodeEntry env v of
             Inl err \<Rightarrow> ((), Inl (Wrap ''cannot decode element with key %X'' err))
           | Inr e \<Rightarrow>
               (case fn e of
                  Inl err \<Rightarrow> ((), Inl (Wrap ''cannot update entry with key %X'' err))
                | Inr e' \<Rightarrow> ((), encodeAndPut env bkt key e'))))"

definition Update :: "Env \<Rightarrow> DB \<Rightarrow> int \<Rightarrow> bytes \<Rightarrow> UpdateFn \<Rightarrow> error option \<times> DB" where
  "Update env i sz sha256 fn =
     snd (tx_Update i (Update_tx env (computeKey sz sha256) fn))"

text \<open>
  \<open>Add\<close> returns its four named results \<open>(added, id, rPath, rErr)\<close> and the store. The
  function of the transaction assigns \<open>added\<close>, \<open>id\<close> and \<open>rPath\<close>, which start as
  \<open>false\<close>, \<open>0\<close> and the empty string.
\<close>

definition Add_tx ::
  "Env \<Rightarrow> bytes \<Rightarrow> string \<Rightarrow> int \<Rightarrow> bytes \<Rightarrow> Bucket \<Rightarrow> (bool \<times> uint64 \<times> string) \<times> (error + Bucket)" where
  "Add_tx env key path sz sha256 bkt =
     (case Get bkt key of
        Some v \<Rightarrow>
          (case decodeEntry env v of
             Inl err \<Rightarrow> ((False, 0, []), Inl (Wrap ''cannot decode element with key %X'' err))
           | Inr e \<Rightarrow> ((Cloud e = [] \<or> length (MD5 e) = 0, ID e, Path e), Inr bkt))
      | None \<Rightarrow>
          (case NextSequence bkt of
             Inl err \<Rightarrow> ((True, 0, []), Inl (Wrap ''cannot obtain the next id'' err))
           | Inr (eid, bkt1) \<Rightarrow>
               ((True, eid, []),
                encodeAndPut env bkt1 key
                  \<lparr>ID = eid, Path = path, Cloud = [], Size = sz, Hash = sha256, MD5 = []\<rparr>)))"

definition Add ::
  "Env \<Rightarrow> DB \<Rightarrow> string \<Rightarrow> int \<Rightarrow> bytes \<Rightarrow> (bool \<times> uint64 \<times> string \<times> error option) \<times> DB" where
  "Add env i path sz sha256 =
     (case tx_Update i (Add_tx env (computeKey sz sha256) path sz sha256) of
        ((added, eid, rPath), rErr, i') \<Rightarrow> ((added, eid, rPath, rErr), i'))"

text \<open>What the program prints, one constructor for each \<^verbatim>\<open>Printf\<close> of the source.\<close>

datatype report =
    CannotProcess string error
  | Uploaded string
  | Duplicate string string
  | Renamed string string
  | ErrorParsing bytes error
  | Missing bytes string

text \<open>
  \<open>CheckMissing\<close> runs in a read-only \<^verbatim>\<open>View\<close> transaction: it walks the pairs in key
  order and returns the store as it was, with the lines printed. \<open>found\<close> is a
  \<^verbatim>\<open>map[uint64]bool\<close>, read with \<^verbatim>\<open>found[e.ID]\<close> only, which is \<open>false\<close> for an
  absent key: a function to \<open>bool\<close>.
\<close>

fun CheckMissing_loop :: "Env \<Rightarrow> (uint64 \<Rightarrow> bool) \<Rightarrow> (bytes \<times> bytes) list \<Rightarrow> report list" where
  "CheckMissing_loop env found [] = []"
| "CheckMissing_loop env found ((k, v) # kvs) =
     (case decodeEntry env v of
        Inl err \<Rightarrow> ErrorParsing k err # CheckMissing_loop env found kvs
      | Inr e \<Rightarrow>
          (if \<not> found (ID e) then Missing k (Path e) # CheckMissing_loop env found kvs
           else CheckMissing_loop env found kvs))"

definition CheckMissing :: "Env \<Rightarrow> DB \<Rightarrow> (uint64 \<Rightarrow> bool) \<Rightarrow> DB \<times> report list" where
  "CheckMissing env i found = (i, CheckMissing_loop env found (pairs (bucket i)))"

section \<open>The fingerprint (computeChecksum)\<close>

text \<open>
  \<^verbatim>\<open>f.Read(b)\<close> on a file positioned at \<open>off\<close>, with a buffer of \<open>n\<close> zero bytes: the
  buffer after the call, or the error. A read into an empty buffer returns no error, a
  read at or past the end of the file returns \<^verbatim>\<open>io.EOF\<close>, and any other read fills the
  start of the buffer with the bytes the file has from \<open>off\<close> on and leaves the rest zero.
  \<^verbatim>\<open>f.Seek\<close> from the start of the file refuses a negative offset.
\<close>

definition Read :: "File \<Rightarrow> nat \<Rightarrow> nat \<Rightarrow> error + bytes" where
  "Read f off n =
     (case f of
        Unreadable \<Rightarrow> Inl (Failure ''read'')
      | Regular d \<Rightarrow>
          if n = 0 then Inr []
          else if length d \<le> off then Inl EOF
          else Inr (take n (drop off d) @ replicate (n - length (take n (drop off d))) 0))"

definition Seek :: "File \<Rightarrow> int \<Rightarrow> error + nat" where
  "Seek f off = (if off < 0 then Inl (Failure ''seek'') else Inr (nat off))"

definition dataToRead :: int where
  "dataToRead = 128000"

text \<open>
  \<^verbatim>\<open>computeChecksum\<close>. \<^verbatim>\<open>make([]byte, size)\<close> panics on a negative size. The division
  by 2 is Go's, which truncates; its operand is not negative here, where \<open>div\<close> agrees.
\<close>

definition computeChecksum :: "Env \<Rightarrow> string \<Rightarrow> int \<Rightarrow> error + bytes" where
  "computeChecksum env path sz =
     (case Open env path of
        None \<Rightarrow> Inl (Wrap ''cannot open file %s'' (Failure ''open''))
      | Some f \<Rightarrow>
          if sz < dataToRead then
            (if sz < 0 then Inl (Panic ''makeslice: len out of range'')
             else
               (case Read f 0 (nat sz) of
                  Inl err \<Rightarrow> Inl (Wrap ''cannot read from file %s'' err)
                | Inr b \<Rightarrow> Inr (Sum256 env b)))
          else
            (case Seek f ((sz - dataToRead) div 2) of
               Inl err \<Rightarrow> Inl (Wrap ''cannot seek in file %s'' err)
             | Inr off \<Rightarrow>
                 (case Read f off (nat dataToRead) of
                    Inl err \<Rightarrow> Inl (Wrap ''cannot read from file %s'' err)
                  | Inr b \<Rightarrow> Inr (Sum256 env b))))"

section \<open>The remote store (cloud.go)\<close>

text \<open>
  \<^verbatim>\<open>type Cloud struct\<close> with the state of its bucket: the directory of the backup, the
  attributes of the objects by name, and the outcomes of the remote calls to come
  (\<open>True\<close> for a call that goes through; when the list is used up every call does).
  \<^verbatim>\<open>attrs.Metadata\<close> is a Go map that is only read by key, where an absent key reads as
  the empty string: a function to strings.
\<close>

record Cloud =
  dir :: string
  objects :: "string \<Rightarrow> ObjectAttrs option"
  responses :: "bool list"

definition metadataHashKey :: string where
  "metadataHashKey = ''x-goog-meta-backup-hash''"

definition hexdigit :: "nat \<Rightarrow> char" where
  "hexdigit n = ''0123456789ABCDEF'' ! n"

text \<open>\<^verbatim>\<open>encode\<close> of cloud.go: \<^verbatim>\<open>fmt.Sprintf("%X", hash)\<close>.\<close>

definition encode :: "bytes \<Rightarrow> string" where
  "encode hash = concat (map (\<lambda>b. [hexdigit (unat b div 16), hexdigit (unat b mod 16)]) hash)"

definition respond :: "Cloud \<Rightarrow> bool \<times> Cloud" where
  "respond c = (case responses c of [] \<Rightarrow> (True, c) | ok # rs \<Rightarrow> (ok, c\<lparr>responses := rs\<rparr>))"

text \<open>\<^verbatim>\<open>object.Attrs\<close>: the attributes, \<^verbatim>\<open>ErrObjectNotExist\<close>, or a failed call.\<close>

definition Attrs :: "Cloud \<Rightarrow> string \<Rightarrow> (error + ObjectAttrs) \<times> Cloud" where
  "Attrs c name =
     (case respond c of
        (ok, c') \<Rightarrow>
          if \<not> ok then (Inl (Failure ''attrs''), c')
          else
            (case objects c' name of
               None \<Rightarrow> (Inl ErrObjectNotExist, c')
             | Some a \<Rightarrow> (Inr a, c')))"

text \<open>\<^verbatim>\<open>io.Copy(w, in)\<close>: the bytes sent, unless the file cannot be read or the call fails.\<close>

definition Copy :: "Cloud \<Rightarrow> File \<Rightarrow> (error + bytes) \<times> Cloud" where
  "Copy c src =
     (case src of
        Unreadable \<Rightarrow> (Inl (Failure ''read''), c)
      | Regular d \<Rightarrow>
          (case respond c of
             (ok, c') \<Rightarrow> if ok then (Inr d, c') else (Inl (Failure ''write''), c')))"

text \<open>\<^verbatim>\<open>w.Close()\<close> creates the object from the bytes sent, unless the call fails.\<close>

definition Close :: "Env \<Rightarrow> Cloud \<Rightarrow> string \<Rightarrow> bytes \<Rightarrow> error option \<times> Cloud" where
  "Close env c name d =
     (case respond c of
        (ok, c') \<Rightarrow>
          if ok then
            (None, c'\<lparr>objects := (objects c')(name \<mapsto>
               \<lparr>attrSize = int (length d), attrMetadata = (\<lambda>k. []), attrMD5 = RemoteMD5 env d\<rparr>)\<rparr>)
          else (Some (Failure ''close''), c'))"

text \<open>\<^verbatim>\<open>object.Update\<close> with one metadata key: the attributes as updated.\<close>

definition Object_Update :: "Cloud \<Rightarrow> string \<Rightarrow> string \<Rightarrow> string \<Rightarrow> (error + ObjectAttrs) \<times> Cloud" where
  "Object_Update c name k v =
     (case respond c of
        (ok, c') \<Rightarrow>
          if \<not> ok then (Inl (Failure ''update''), c')
          else
            (case objects c' name of
               None \<Rightarrow> (Inl ErrObjectNotExist, c')
             | Some a \<Rightarrow>
                 (Inr (a\<lparr>attrMetadata := (attrMetadata a)(k := v)\<rparr>),
                  c'\<lparr>objects := (objects c')(name \<mapsto> a\<lparr>attrMetadata := (attrMetadata a)(k := v)\<rparr>)\<rparr>)))"

text \<open>
  \<open>Upload\<close> returns its three named results \<open>(cloud, chksum, err)\<close> and the remote
  state. The error of \<^verbatim>\<open>w.Close()\<close> is not looked at.
\<close>

definition Upload ::
  "Env \<Rightarrow> Cloud \<Rightarrow> string \<Rightarrow> string \<Rightarrow> int \<Rightarrow> bytes \<Rightarrow> (string \<times> bytes \<times> error option) \<times> Cloud" where
  "Upload env i fp p sz hash =
     (case Open env fp of
        None \<Rightarrow> (([], [], Some (Failure ''open'')), i)
      | Some src \<Rightarrow>
          (let cl = Join env (dir i) p in
           case Attrs i cl of
             (Inr attrs, i1) \<Rightarrow>
               if attrSize attrs = sz \<and> attrMetadata attrs metadataHashKey = encode hash
               then ((cl, attrMD5 attrs, None), i1)
               else ((cl, [], Some (Errorf ''cloud file %s already exists, but it is different'')), i1)
           | (Inl aErr, i1) \<Rightarrow>
               if aErr \<noteq> ErrObjectNotExist
               then ((cl, [], Some (Wrap ''cannot check cloud file %s'' aErr)), i1)
               else
                 (case Copy i1 src of
                    (Inl err, i2) \<Rightarrow> ((cl, [], Some err), i2)
                  | (Inr d, i2) \<Rightarrow>
                      (case Close env i2 cl d of
                         (_, i3) \<Rightarrow>
                           (case Object_Update i3 cl metadataHashKey (encode hash) of
                              (Inl aErr, i4) \<Rightarrow>
                                ((cl, [], Some (Wrap ''cannot update attributes'' aErr)), i4)
                            | (Inr attrs, i4) \<Rightarrow> ((cl, attrMD5 attrs, None), i4))))))"

section \<open>The decision for one file (walker.work) and the worker\<close>

text \<open>
  \<^verbatim>\<open>type walker struct\<close>, for one worker that takes the queued files in turn: the store,
  the remote store, the root, the touched map (read with \<^verbatim>\<open>i.touched[id]\<close> and set to
  \<open>true\<close> only: a function to \<open>bool\<close>), and what has been printed.
\<close>

record walker =
  db :: DB
  cloud :: Cloud
  root :: string
  touched :: "uint64 \<Rightarrow> bool"
  out :: "report list"

definition work :: "Env \<Rightarrow> walker \<Rightarrow> string \<Rightarrow> int \<Rightarrow> error option \<times> walker" where
  "work env i fp sz =
     (case Rel env (root i) fp of
        Inl err \<Rightarrow> (Some (Wrap ''cannot compute relative path of %s'' err), i)
      | Inr p \<Rightarrow>
          (case computeChecksum env fp sz of
             Inl err \<Rightarrow> (Some (Wrap ''cannot compute checksum of %s'' err), i)
           | Inr hsum \<Rightarrow>
               (case Add env (db i) p sz hsum of
                  ((added, eid, dbpath, rErr), d1) \<Rightarrow>
                    (case rErr of
                       Some err \<Rightarrow> (Some (Wrap ''cannot add entry to database'' err), i\<lparr>db := d1\<rparr>)
                     | None \<Rightarrow>
                         (let wasTouched = touched i eid;
                              i1 = i\<lparr>db := d1, touched := (touched i)(eid := True)\<rparr>
                          in
                          if added \<and> \<not> wasTouched then
                            (case Upload env (cloud i1) fp p sz hsum of
                               ((cloudPath, md5, uErr), c1) \<Rightarrow>
                                 (case uErr of
                                    Some err \<Rightarrow>
                                      (Some (Wrap ''cannot upload %s to cloud storage'' err),
                                       i1\<lparr>cloud := c1\<rparr>)
                                  | None \<Rightarrow>
                                      (None,
                                       i1\<lparr>cloud := c1,
                                          db := snd (Update env d1 sz hsum
                                            (\<lambda>e. Inr (e\<lparr>Cloud := cloudPath, MD5 := md5\<rparr>))),
                                          out := out i1 @ [Uploaded p]\<rparr>)))
                          else if wasTouched then
                            (None, i1\<lparr>out := out i1 @ [Duplicate fp (Join env (root i1) dbpath)]\<rparr>)
                          else if p \<noteq> dbpath then
                            (None,
                             i1\<lparr>out := out i1 @ [Renamed (Join env (root i1) dbpath) p],
                                db := snd (Update env d1 sz hsum (\<lambda>e. Inr (e\<lparr>Path := p\<rparr>)))\<rparr>)
                          else (None, i1))))))"

text \<open>\<^verbatim>\<open>worker\<close>: the loop over the queue of \<^verbatim>\<open>work{path, size}\<close> items.\<close>

fun worker :: "Env \<Rightarrow> walker \<Rightarrow> (string \<times> int) list \<Rightarrow> walker" where
  "worker env i [] = i"
| "worker env i ((path, sz) # wc) =
     (case work env i path sz of
        (None, i') \<Rightarrow> worker env i' wc
      | (Some err, i') \<Rightarrow> worker env (i'\<lparr>out := out i' @ [CannotProcess path err]\<rparr>) wc)"

section \<open>Complete and incomplete entries\<close>

text \<open>
  An entry is balanced when \<open>Cloud\<close> and \<open>MD5\<close> are both empty or both set; a list
  of pairs is balanced when every value in it is the encoding of a balanced entry.
\<close>

definition balanced :: "Entry \<Rightarrow> bool" where
  "balanced e = ((Cloud e = []) = (MD5 e = []))"

definition stored_balanced :: "Env \<Rightarrow> (bytes \<times> bytes) list \<Rightarrow> bool" where
  "stored_balanced env ps =
     (\<forall>kv \<in> set ps. \<exists>e. Entry_encode env e = Inr (snd kv) \<and> balanced e)"

section \<open>A small instance\<close>

text \<open>
  One environment on which the theorems below are exercised: two files \<open>/r/a\<close> and
  \<open>/r/b\<close> with the same three bytes, a file \<open>/r/d\<close> that cannot be read, a file
  \<open>/r/big\<close> of 200000 bytes, a digest that repeats the length of its input, and a
  codec that knows five entries: the entry of \<open>/r/a\<close> as first seen, as uploaded, as
  renamed to \<open>b\<close>, and with a remote path and no checksum, and the entry of a file
  \<open>c\<close> of four bytes.
\<close>

definition ex_hash :: bytes where
  "ex_hash = replicate 32 3"

definition ex_md5 :: bytes where
  "ex_md5 = replicate 16 3"

definition ex_new :: Entry where
  "ex_new = \<lparr>ID = 1, Path = ''a'', Cloud = [], Size = 3, Hash = ex_hash, MD5 = []\<rparr>"

definition ex_done :: Entry where
  "ex_done = \<lparr>ID = 1, Path = ''a'', Cloud = ''bk/a'', Size = 3, Hash = ex_hash, MD5 = ex_md5\<rparr>"

definition ex_moved :: Entry where
  "ex_moved = \<lparr>ID = 1, Path = ''b'', Cloud = ''bk/a'', Size = 3, Hash = ex_hash, MD5 = ex_md5\<rparr>"

definition ex_other :: Entry where
  "ex_other = \<lparr>ID = 2, Path = ''c'', Cloud = [], Size = 4, Hash = ex_hash, MD5 = []\<rparr>"

definition ex_half :: Entry where
  "ex_half = \<lparr>ID = 1, Path = ''a'', Cloud = ''bk/a'', Size = 3, Hash = ex_hash, MD5 = []\<rparr>"

definition ex_env :: Env where
  "ex_env =
     \<lparr>Open = (\<lambda>p. if p = ''/r/a'' \<or> p = ''/r/b'' then Some (Regular [1, 2, 3])
                  else if p = ''/r/d'' then Some Unreadable
                  else if p = ''/r/big'' then Some (Regular (replicate 200000 9)) else None),
      Rel = (\<lambda>r f. if take (length r + 1) f = r @ ''/'' then Inr (drop (length r + 1) f)
                    else Inl (Failure ''rel'')),
      Join = (\<lambda>a b. a @ ''/'' @ b),
      Sum256 = (\<lambda>b. replicate 32 (of_nat (length b))),
      Encode = (\<lambda>e. if e = ex_new then Inr [1] else if e = ex_done then Inr [2]
                     else if e = ex_moved then Inr [3] else if e = ex_other then Inr [4]
                     else if e = ex_half then Inr [5] else Inl (Failure ''gob'')),
      Decode = (\<lambda>b. if b = [1] then Inr ex_new else if b = [2] then Inr ex_done
                     else if b = [3] then Inr ex_moved else if b = [4] then Inr ex_other
                     else if b = [5] then Inr ex_half else Inl (Failure ''gob'')),
      RemoteMD5 = (\<lambda>b. replicate 16 (of_nat (length b)))\<rparr>"

definition ex_key :: bytes where
  "ex_key = computeKey 3 ex_hash"

definition ex_db :: "bytes \<Rightarrow> bool list \<Rightarrow> DB" where
  "ex_db v cs = \<lparr>bucket = \<lparr>pairs = [(ex_key, v)], sequence = 1\<rparr>, commits = cs\<rparr>"

definition ex_key2 :: bytes where
  "ex_key2 = computeKey 4 ex_hash"

definition ex_db2 :: DB where
  "ex_db2 = \<lparr>bucket = \<lparr>pairs = [(ex_key, [2]), (ex_key2, [4])], sequence = 2\<rparr>, commits = []\<rparr>"

definition ex_object :: ObjectAttrs where
  "ex_object =
     \<lparr>attrSize = 3, attrMetadata = (\<lambda>k. [])(metadataHashKey := encode ex_hash),
      attrMD5 = ex_md5\<rparr>"

definition ex_cloud :: "(string \<Rightarrow> ObjectAttrs option) \<Rightarrow> Cloud" where
  "ex_cloud os = \<lparr>dir = ''bk'', objects = os, responses = []\<rparr>"

definition ex_walker :: "DB \<Rightarrow> Cloud \<Rightarrow> (uint64 \<Rightarrow> bool) \<Rightarrow> report list \<Rightarrow> walker" where
  "ex_walker d c t ou = \<lparr>db = d, cloud = c, root = ''/r'', touched = t, out = ou\<rparr>"

definition ex_db_empty :: DB where
  "ex_db_empty = \<lparr>bucket = \<lparr>pairs = [], sequence = 0\<rparr>, commits = []\<rparr>"

section \<open>Facts about the bucket and the transactions\<close>

lemma map_of_put_pair: "map_of (put_pair k v ps) = (map_of ps)(k \<mapsto> v)"
  by (induction ps) (auto simp: fun_eq_iff)

lemma Get_Put:
  "Put bkt key b = Inr bkt' \<Longrightarrow> Get bkt' k = (if k = key then Some b else Get bkt k)"
  by (auto simp: Put_def Get_def map_of_put_pair split: if_splits)

lemma Put_frame:
  "Put bkt key b = Inr bkt' \<Longrightarrow>
     sequence bkt' = sequence bkt \<and> pairs bkt' = put_pair key b (pairs bkt)"
  by (auto simp: Put_def split: if_splits)

lemma encodeAndPut_Inr:
  "encodeAndPut env bkt key e = Inr bkt' \<Longrightarrow>
     \<exists>b. Entry_encode env e = Inr b \<and> Put bkt key b = Inr bkt'"
  by (auto simp: encodeAndPut_def split: sum.splits)

lemma tx_Update_cases:
  "tx_Update d fn = (r, rErr, d') \<Longrightarrow>
     r = fst (fn (bucket d)) \<and>
     (case rErr of
        Some err \<Rightarrow> bucket d' = bucket d
      | None \<Rightarrow> snd (fn (bucket d)) = Inr (bucket d'))"
  by (auto simp: tx_Update_def split: prod.splits sum.splits list.splits if_splits)

lemma ex_key_nonempty: "ex_key \<noteq> [] \<and> length ex_key = 40"
  by (simp add: ex_key_def computeKey_def PutUint64_def ex_hash_def)

lemma ex_run_Update:
  "Update ex_env (ex_db [2] []) 3 ex_hash (\<lambda>e. Inr (e\<lparr>Path := ''b''\<rparr>)) = (None, ex_db [3] [])"
  using ex_key_nonempty
  by (simp add: Update_def tx_Update_def Update_tx_def ex_db_def Get_def ex_key_def [symmetric]
      decodeEntry_def encodeAndPut_def Entry_encode_def Put_def ex_env_def ex_done_def ex_moved_def ex_new_def)

lemma ex_md5_nonempty: "ex_md5 \<noteq> []"
  by (simp add: ex_md5_def)

lemma ex_run_Add_absent:
  "Add ex_env ex_db_empty ''a'' 3 ex_hash = ((True, 1, [], None), ex_db [1] [])"
  using ex_key_nonempty
  by (simp add: Add_def tx_Update_def Add_tx_def ex_db_def ex_db_empty_def Get_def ex_key_def [symmetric]
      NextSequence_def encodeAndPut_def Entry_encode_def Put_def ex_env_def ex_new_def)

lemma ex_run_Add_present:
  "Add ex_env (ex_db [2] []) ''b'' 3 ex_hash = ((False, 1, ''a'', None), ex_db [2] [])"
  by (simp add: Add_def tx_Update_def Add_tx_def ex_db_def Get_def ex_key_def [symmetric]
      decodeEntry_def ex_env_def ex_done_def ex_md5_nonempty)

section \<open>The store operations\<close>

lemma Update_cases:
  assumes "Update env i sz sha256 fn = (rErr, i')"
  shows "(Get (bucket i) (computeKey sz sha256) = None \<longrightarrow> rErr \<noteq> None) \<and>
         (rErr \<noteq> None \<longrightarrow> bucket i' = bucket i) \<and>
         (rErr = None \<longrightarrow>
            (\<exists>v e e' b.
               Get (bucket i) (computeKey sz sha256) = Some v \<and>
               decodeEntry env v = Inr e \<and> fn e = Inr e' \<and>
               Entry_encode env e' = Inr b \<and>
               Get (bucket i') (computeKey sz sha256) = Some b \<and>
               (\<forall>k. k \<noteq> computeKey sz sha256 \<longrightarrow> Get (bucket i') k = Get (bucket i) k) \<and>
               sequence (bucket i') = sequence (bucket i)))"
proof -
  obtain r where tx: "tx_Update i (Update_tx env (computeKey sz sha256) fn) = (r, rErr, i')"
    using assms by (cases "tx_Update i (Update_tx env (computeKey sz sha256) fn)") (auto simp: Update_def)
  note c = tx_Update_cases [OF tx]
  show ?thesis
  proof (cases rErr)
    case (Some err)
    with c show ?thesis by simp
  next
    case None
    with c have run: "snd (Update_tx env (computeKey sz sha256) fn (bucket i)) = Inr (bucket i')"
      by simp
    then obtain v e e' where
      g: "Get (bucket i) (computeKey sz sha256) = Some v" and
      d: "decodeEntry env v = Inr e" and f: "fn e = Inr e'" and
      p: "encodeAndPut env (bucket i) (computeKey sz sha256) e' = Inr (bucket i')"
      by (auto simp: Update_tx_def split: option.splits sum.splits)
    from encodeAndPut_Inr [OF p] obtain b where
      b: "Entry_encode env e' = Inr b" and put: "Put (bucket i) (computeKey sz sha256) b = Inr (bucket i')"
      by blast
    from Get_Put [OF put] Put_frame [OF put] g d f b None show ?thesis by auto
  qed
qed


text \<open>
  C6. \<open>Update\<close> (updateByKey) returns an error when the store has no entry under the
  content key of the size and the hash. Whenever it returns an error (the key is absent,
  the entry does not decode, the mutator fails, the entry cannot be written or the commit
  fails) the bucket is the one it started from, so the entry of that key and every other
  entry are unchanged. When it returns no error, the stored value decoded to an entry, the
  mutator accepted it, and the encoding of the mutated entry is what the store now holds
  under the same key; the values of all other keys and the sequence counter are unchanged.
\<close>

theorem Update_spec:
  assumes "Update env i sz sha256 fn = (rErr, i')"
  shows "(Get (bucket i) (computeKey sz sha256) = None \<longrightarrow> rErr \<noteq> None) \<and>
         (\<forall>v err. Get (bucket i) (computeKey sz sha256) = Some v \<and>
            decodeEntry env v = Inl err \<longrightarrow> rErr \<noteq> None) \<and>
         (\<forall>v e err. Get (bucket i) (computeKey sz sha256) = Some v \<and>
            decodeEntry env v = Inr e \<and> fn e = Inl err \<longrightarrow> rErr \<noteq> None) \<and>
         (rErr \<noteq> None \<longrightarrow> bucket i' = bucket i) \<and>
         (rErr = None \<longrightarrow>
            (\<exists>v e e' b.
               Get (bucket i) (computeKey sz sha256) = Some v \<and>
               decodeEntry env v = Inr e \<and> fn e = Inr e' \<and>
               Entry_encode env e' = Inr b \<and>
               Get (bucket i') (computeKey sz sha256) = Some b \<and>
               (\<forall>k. k \<noteq> computeKey sz sha256 \<longrightarrow> Get (bucket i') k = Get (bucket i) k) \<and>
               sequence (bucket i') = sequence (bucket i)))"
proof -
  note c = Update_cases [OF assms]
  have "rErr \<noteq> None"
    if "Get (bucket i) (computeKey sz sha256) = Some v \<and> decodeEntry env v = Inl err" for v err
    using c that by (cases rErr) auto
  moreover have "rErr \<noteq> None"
    if "Get (bucket i) (computeKey sz sha256) = Some v \<and> decodeEntry env v = Inr e \<and>
        fn e = Inl err" for v e err
    using c that by (cases rErr) auto
  ultimately show ?thesis using c by blast
qed

lemma ex_run_Update_absent:
  "Update ex_env ex_db_empty 3 ex_hash fn =
     (Some (Errorf ''cannot find element with key %X''), ex_db_empty)"
  by (simp add: Update_def tx_Update_def Update_tx_def ex_db_empty_def Get_def)

theorem Update_spec_witness:
  "Update ex_env (ex_db [2] []) 3 ex_hash (\<lambda>e. Inr (e\<lparr>Path := ''b''\<rparr>)) = (None, ex_db [3] []) \<and>
   Get (bucket (ex_db [2] [])) (computeKey 3 ex_hash) = Some [2] \<and>
   Get (bucket (ex_db [3] [])) (computeKey 3 ex_hash) = Some [3] \<and>
   Entry_encode ex_env ex_moved = Inr [3] \<and>
   sequence (bucket (ex_db [3] [])) = sequence (bucket (ex_db [2] [])) \<and>
   Get (bucket ex_db_empty) (computeKey 3 ex_hash) = None \<and>
   Update ex_env ex_db_empty 3 ex_hash (\<lambda>e. Inr (e\<lparr>Path := ''b''\<rparr>)) =
     (Some (Errorf ''cannot find element with key %X''), ex_db_empty)"
proof -
  have g: "Get (bucket (ex_db [2] [])) (computeKey 3 ex_hash) = Some [2]"
    "Get (bucket ex_db_empty) (computeKey 3 ex_hash) = None"
    by (simp_all add: ex_db_def ex_db_empty_def Get_def ex_key_def)
  have e: "Entry_encode ex_env ex_moved = Inr [3]"
    by (simp add: Entry_encode_def ex_env_def ex_moved_def ex_done_def ex_new_def)
  have d: "decodeEntry ex_env [2] = Inr ex_done" "ex_done\<lparr>Path := ''b''\<rparr> = ex_moved"
    by (simp_all add: decodeEntry_def ex_env_def ex_done_def ex_moved_def)
  from Update_spec [OF ex_run_Update] g d e
  have "Get (bucket (ex_db [3] [])) (computeKey 3 ex_hash) = Some [3] \<and>
    sequence (bucket (ex_db [3] [])) = sequence (bucket (ex_db [2] []))"
    by auto
  moreover from Update_spec [OF ex_run_Update_absent] g
  have "bucket ex_db_empty = bucket ex_db_empty" by simp
  ultimately show ?thesis
    using g e ex_run_Update ex_run_Update_absent by simp
qed


lemma Add_cases:
  assumes "Add env i path sz sha256 = ((added, eid, rPath, rErr), i')"
  shows "(\<forall>v. Get (bucket i) (computeKey sz sha256) = Some v \<longrightarrow>
            bucket i' = bucket i \<and>
            (\<forall>e. decodeEntry env v = Inr e \<longrightarrow>
               added = (Cloud e = [] \<or> MD5 e = []) \<and> eid = ID e \<and> rPath = Path e)) \<and>
         (Get (bucket i) (computeKey sz sha256) = None \<longrightarrow>
            added \<and>
            (rErr = None \<longrightarrow>
               eid = sequence (bucket i) + 1 \<and> sequence (bucket i') = eid \<and>
               (\<exists>b. Entry_encode env
                      \<lparr>ID = eid, Path = path, Cloud = [], Size = sz, Hash = sha256, MD5 = []\<rparr> = Inr b \<and>
                    Get (bucket i') (computeKey sz sha256) = Some b \<and>
                    (\<forall>k. k \<noteq> computeKey sz sha256 \<longrightarrow> Get (bucket i') k = Get (bucket i) k)))) \<and>
         (rErr \<noteq> None \<longrightarrow> bucket i' = bucket i)"
proof -
  let ?key = "computeKey sz sha256"
  let ?fn = "Add_tx env ?key path sz sha256"
  have tx: "tx_Update i ?fn = ((added, eid, rPath), rErr, i')"
    using assms by (auto simp: Add_def split: prod.splits)
  note c = tx_Update_cases [OF tx]
  have rolled: "rErr \<noteq> None \<longrightarrow> bucket i' = bucket i"
    using c by (cases rErr) auto
  have present: "bucket i' = bucket i \<and>
      (\<forall>e. decodeEntry env v = Inr e \<longrightarrow>
         added = (Cloud e = [] \<or> MD5 e = []) \<and> eid = ID e \<and> rPath = Path e)"
    if g: "Get (bucket i) ?key = Some v" for v
  proof (cases "decodeEntry env v")
    case (Inl err)
    with g have "snd (?fn (bucket i)) = Inl (Wrap ''cannot decode element with key %X'' err)"
      by (simp add: Add_tx_def)
    with c have "bucket i' = bucket i" by (cases rErr) auto
    with Inl show ?thesis by simp
  next
    case (Inr e)
    with g have f: "?fn (bucket i) = ((Cloud e = [] \<or> MD5 e = [], ID e, Path e), Inr (bucket i))"
      by (simp add: Add_tx_def)
    with c have "bucket i' = bucket i" by (cases rErr) auto
    with c f Inr show ?thesis by simp
  qed
  have absent: "added \<and>
      (rErr = None \<longrightarrow>
         eid = sequence (bucket i) + 1 \<and> sequence (bucket i') = eid \<and>
         (\<exists>b. Entry_encode env
                \<lparr>ID = eid, Path = path, Cloud = [], Size = sz, Hash = sha256, MD5 = []\<rparr> = Inr b \<and>
              Get (bucket i') ?key = Some b \<and>
              (\<forall>k. k \<noteq> ?key \<longrightarrow> Get (bucket i') k = Get (bucket i) k)))"
    if g: "Get (bucket i) ?key = None"
  proof -
    let ?b1 = "(bucket i)\<lparr>sequence := sequence (bucket i) + 1\<rparr>"
    let ?e = "\<lparr>ID = sequence (bucket i) + 1, Path = path, Cloud = [], Size = sz,
               Hash = sha256, MD5 = []\<rparr>"
    from g have f: "?fn (bucket i) = ((True, sequence (bucket i) + 1, []), encodeAndPut env ?b1 ?key ?e)"
      by (simp add: Add_tx_def NextSequence_def)
    with c have r: "added" "eid = sequence (bucket i) + 1" by simp_all
    show ?thesis
    proof (cases rErr)
      case (Some err)
      with r show ?thesis by simp
    next
      case None
      with c f have p: "encodeAndPut env ?b1 ?key ?e = Inr (bucket i')" by simp
      from encodeAndPut_Inr [OF p] obtain b where
        b: "Entry_encode env ?e = Inr b" and put: "Put ?b1 ?key b = Inr (bucket i')"
        by blast
      have "Get ?b1 k = Get (bucket i) k" for k by (simp add: Get_def)
      with Get_Put [OF put] Put_frame [OF put] r b show ?thesis by auto
    qed
  qed
  from rolled present absent show ?thesis by blast
qed



text \<open>
  C2. \<open>Add\<close> (addIfAbsent), with the content key of the size and the hash. When the
  key is in the store, the bucket is left as it was, and if the stored value decodes to an
  entry then \<open>added\<close> is true exactly when that entry's \<open>Cloud\<close> is empty or its
  \<open>MD5\<close> is empty, and the id and the path returned are the entry's. When the key is
  absent, \<open>added\<close> is true, and if no error is returned the id is the next value of the
  bucket's sequence and the store holds under the key the encoding of the entry with that
  id, the given path, size and hash, and empty \<open>Cloud\<close> and \<open>MD5\<close>, all other keys
  being unchanged. It is one transaction: when an error is returned the bucket is the one
  it started from (no entry written, no id consumed).
\<close>

theorem Add_spec:
  assumes "Add env i path sz sha256 = ((added, eid, rPath, rErr), i')"
  shows "(\<forall>v. Get (bucket i) (computeKey sz sha256) = Some v \<longrightarrow>
            bucket i' = bucket i \<and>
            (\<forall>e. decodeEntry env v = Inr e \<longrightarrow>
               added = (Cloud e = [] \<or> MD5 e = []) \<and> eid = ID e \<and> rPath = Path e)) \<and>
         (Get (bucket i) (computeKey sz sha256) = None \<longrightarrow>
            added \<and>
            (rErr = None \<longrightarrow>
               eid = sequence (bucket i) + 1 \<and> sequence (bucket i') = eid \<and>
               (\<exists>b. Entry_encode env
                      \<lparr>ID = eid, Path = path, Cloud = [], Size = sz, Hash = sha256, MD5 = []\<rparr> = Inr b \<and>
                    Get (bucket i') (computeKey sz sha256) = Some b \<and>
                    (\<forall>k. k \<noteq> computeKey sz sha256 \<longrightarrow> Get (bucket i') k = Get (bucket i) k)))) \<and>
         (rErr \<noteq> None \<longrightarrow> bucket i' = bucket i)"
  using assms by (rule Add_cases)

theorem Add_spec_witness:
  "Add ex_env ex_db_empty ''a'' 3 ex_hash = ((True, 1, [], None), ex_db [1] []) \<and>
   Get (bucket ex_db_empty) (computeKey 3 ex_hash) = None \<and>
   Get (bucket (ex_db [1] [])) (computeKey 3 ex_hash) = Some [1] \<and>
   Entry_encode ex_env ex_new = Inr [1] \<and>
   Add ex_env (ex_db [2] []) ''b'' 3 ex_hash = ((False, 1, ''a'', None), ex_db [2] []) \<and>
   Get (bucket (ex_db [2] [])) (computeKey 3 ex_hash) = Some [2] \<and>
   decodeEntry ex_env [2] = Inr ex_done \<and>
   Cloud ex_done \<noteq> [] \<and> MD5 ex_done \<noteq> [] \<and> ID ex_done = 1 \<and> Path ex_done = ''a''"
proof -
  have a: "Get (bucket ex_db_empty) (computeKey 3 ex_hash) = None"
    by (simp add: ex_db_empty_def Get_def)
  have b: "Get (bucket (ex_db [2] [])) (computeKey 3 ex_hash) = Some [2]"
    by (simp add: ex_db_def Get_def ex_key_def)
  have c: "decodeEntry ex_env [2] = Inr ex_done"
    by (simp add: decodeEntry_def ex_env_def)
  have d: "Entry_encode ex_env ex_new = Inr [1]"
    by (simp add: Entry_encode_def ex_env_def)
  from Add_spec [OF ex_run_Add_absent] a
  have "Get (bucket (ex_db [1] [])) (computeKey 3 ex_hash) = Some [1]"
    by (simp add: ex_new_def [symmetric] d)
  moreover from Add_spec [OF ex_run_Add_present] b c
  have "Cloud ex_done \<noteq> [] \<and> MD5 ex_done \<noteq> [] \<and> ID ex_done = 1 \<and> Path ex_done = ''a''"
    by simp
  ultimately show ?thesis
    using a b c d ex_run_Add_absent ex_run_Add_present by simp
qed

section \<open>The missing-file report\<close>

lemma PutUint64_3: "PutUint64 3 = [3,0,0,0,0,0,0,0]"
  by (simp add: PutUint64_def upt_rec)

lemma PutUint64_4: "PutUint64 4 = [4,0,0,0,0,0,0,0]"
  by (simp add: PutUint64_def upt_rec)

lemma CheckMissing_loop_Missing:
  "Missing k p \<in> set (CheckMissing_loop env found kvs) \<longleftrightarrow>
     (\<exists>v e. (k, v) \<in> set kvs \<and> decodeEntry env v = Inr e \<and> \<not> found (ID e) \<and> Path e = p)"
  by (induction env found kvs rule: CheckMissing_loop.induct) (auto split: sum.splits)

lemma CheckMissing_loop_count:
  "distinct (map fst kvs) \<Longrightarrow> (k, v) \<in> set kvs \<Longrightarrow> decodeEntry env v = Inr e \<Longrightarrow>
     count_list (CheckMissing_loop env found kvs) (Missing k (Path e)) =
       (if found (ID e) then 0 else 1)"
proof (induction env found kvs rule: CheckMissing_loop.induct)
  case (1 env found)
  then show ?case by simp
next
  case (2 env found k' v' kvs)
  show ?case
  proof (cases "k = k'")
    case True
    with "2.prems" have v: "v = v'" and fresh: "k \<notin> fst ` set kvs"
      by (auto simp: rev_image_eqI)
    from fresh have "Missing k (Path e) \<notin> set (CheckMissing_loop env found kvs)"
      by (auto simp: CheckMissing_loop_Missing rev_image_eqI)
    then have "count_list (CheckMissing_loop env found kvs) (Missing k (Path e)) = 0"
      by (simp add: count_list_0_iff)
    with True v "2.prems" show ?thesis by simp
  next
    case False
    with "2.prems" have "(k, v) \<in> set kvs" "distinct (map fst kvs)" by auto
    with "2.IH" "2.prems" False show ?thesis by (auto split: sum.splits)
  qed
qed


lemma fst_set_put_pair: "fst ` set (put_pair k v ps) = insert k (fst ` set ps)"
  by (simp add: dom_map_of_conv_image_fst [symmetric] map_of_put_pair)

lemma sorted_put_pair:
  "sorted_wrt (<) (map fst ps) \<Longrightarrow> sorted_wrt (<) (map fst (put_pair k v ps))"
proof (induction ps)
  case Nil
  then show ?case by simp
next
  case (Cons q ps)
  obtain k' v' where q: "q = (k', v')" by (cases q)
  show ?case
  proof (cases "k = k'")
    case True
    with Cons.prems q show ?thesis by simp
  next
    case ne: False
    show ?thesis
    proof (cases "k < k'")
      case True
      with Cons.prems q ne show ?thesis by (auto intro: less_trans)
    next
      case False
      with ne have "k' < k" by auto
      moreover note fst_set_put_pair [of k v ps]
      ultimately show ?thesis
        using Cons q ne False by auto
    qed
  qed
qed

lemma distinct_put_pair:
  "sorted_wrt (<) (map fst ps) \<Longrightarrow> distinct (map fst (put_pair k v ps))"
  using sorted_put_pair [of ps k v] strict_sorted_iff by blast

text \<open>
  C7. \<open>CheckMissing\<close>, on a bucket whose keys are distinct (as \<open>put_pair\<close> keeps
  them) and any touched map: the store is returned as it was; an entry of the store (a
  pair whose value decodes) is reported as missing, with its key and path, exactly once
  when its id is not touched and never when it is; and every line that reports a missing
  file is the line of such an untouched entry.
\<close>

theorem CheckMissing_spec:
  assumes "distinct (map fst (pairs (bucket i)))"
  shows "fst (CheckMissing env i found) = i \<and>
         (\<forall>k v e. (k, v) \<in> set (pairs (bucket i)) \<and> decodeEntry env v = Inr e \<longrightarrow>
            count_list (snd (CheckMissing env i found)) (Missing k (Path e)) =
              (if found (ID e) then 0 else 1)) \<and>
         (\<forall>k p. Missing k p \<in> set (snd (CheckMissing env i found)) \<longrightarrow>
            (\<exists>v e. (k, v) \<in> set (pairs (bucket i)) \<and> decodeEntry env v = Inr e \<and>
               \<not> found (ID e) \<and> Path e = p))"
proof (intro conjI allI impI)
  show "fst (CheckMissing env i found) = i"
    by (simp add: CheckMissing_def)
next
  fix k v e
  assume "(k, v) \<in> set (pairs (bucket i)) \<and> decodeEntry env v = Inr e"
  with assms CheckMissing_loop_count [of "pairs (bucket i)" k v env e found]
  show "count_list (snd (CheckMissing env i found)) (Missing k (Path e)) =
          (if found (ID e) then 0 else 1)"
    by (simp add: CheckMissing_def)
next
  fix k p
  assume "Missing k p \<in> set (snd (CheckMissing env i found))"
  then show "\<exists>v e. (k, v) \<in> set (pairs (bucket i)) \<and> decodeEntry env v = Inr e \<and>
               \<not> found (ID e) \<and> Path e = p"
    by (simp add: CheckMissing_def CheckMissing_loop_Missing)
qed

lemma ex_keys_differ: "ex_key \<noteq> ex_key2"
  by (simp add: ex_key_def ex_key2_def computeKey_def PutUint64_3 PutUint64_4)

lemma ex_run_CheckMissing:
  "CheckMissing ex_env ex_db2 ((\<lambda>_. False)(1 := True)) = (ex_db2, [Missing ex_key2 ''c''])"
  by (simp add: CheckMissing_def ex_db2_def decodeEntry_def ex_env_def ex_done_def ex_other_def)

theorem CheckMissing_spec_witness:
  "distinct (map fst (pairs (bucket ex_db2))) \<and>
   CheckMissing ex_env ex_db2 ((\<lambda>_. False)(1 := True)) = (ex_db2, [Missing ex_key2 ''c'']) \<and>
   count_list [Missing ex_key2 ''c''] (Missing ex_key2 (Path ex_other)) = 1 \<and>
   count_list [Missing ex_key2 ''c''] (Missing ex_key (Path ex_done)) = 0"
proof -
  have d: "distinct (map fst (pairs (bucket ex_db2)))"
    using ex_keys_differ by (simp add: ex_db2_def)
  have m: "(ex_key2, [4]) \<in> set (pairs (bucket ex_db2))" "decodeEntry ex_env [4] = Inr ex_other"
    "(ex_key, [2]) \<in> set (pairs (bucket ex_db2))" "decodeEntry ex_env [2] = Inr ex_done"
    by (simp_all add: ex_db2_def decodeEntry_def ex_env_def)
  have f: "\<not> ((\<lambda>_. False)(1 := True)) (ID ex_other)" "((\<lambda>_. False)(1 := True)) (ID ex_done)"
    by (simp_all add: ex_other_def ex_done_def)
  from CheckMissing_spec [OF d, of ex_env "(\<lambda>_. False)(1 := True)"] m f
  have "count_list [Missing ex_key2 ''c''] (Missing ex_key2 (Path ex_other)) = 1"
    and "count_list [Missing ex_key2 ''c''] (Missing ex_key (Path ex_done)) = 0"
    unfolding ex_run_CheckMissing by (metis snd_conv)+
  with d show ?thesis using ex_run_CheckMissing by simp
qed

section \<open>The fingerprint\<close>

lemma Read_whole:
  "Read (Regular d) 0 (length d) = Inr d"
  by (simp add: Read_def)

lemma Read_middle:
  assumes "off + n \<le> length d" "0 < n"
  shows "Read (Regular d) off n = Inr (take n (drop off d))"
proof -
  from assms have "length (take n (drop off d)) = n" by simp
  with assms show ?thesis by (simp add: Read_def)
qed

text \<open>
  C3. \<open>computeChecksum\<close>, for a path and a size. A file that cannot be opened gives an
  error, and so does every read that fails, in either branch: the error is returned and no
  digest is. For a file that holds exactly \<open>sz\<close> bytes: below 128000 bytes the digest is
  \<open>Sum256\<close> of all its bytes; from 128000 bytes on it is \<open>Sum256\<close> of the 128000
  bytes that start at offset \<open>(sz - 128000) div 2\<close>. The digest is what
  \<^verbatim>\<open>sha256.Sum256\<close> returns (a \<^verbatim>\<open>[32]byte\<close>).
\<close>

theorem computeChecksum_spec:
  "(Open env path = None \<longrightarrow> (\<exists>err. computeChecksum env path sz = Inl err)) \<and>
   (\<forall>f err. Open env path = Some f \<and> 0 \<le> sz \<and> sz < 128000 \<and>
        Read f 0 (nat sz) = Inl err \<longrightarrow>
        computeChecksum env path sz = Inl (Wrap ''cannot read from file %s'' err)) \<and>
   (\<forall>f err. Open env path = Some f \<and> 128000 \<le> sz \<and>
        Read f (nat ((sz - 128000) div 2)) 128000 = Inl err \<longrightarrow>
        computeChecksum env path sz = Inl (Wrap ''cannot read from file %s'' err)) \<and>
   (\<forall>d. Open env path = Some (Regular d) \<and> int (length d) = sz \<and> sz < 128000 \<longrightarrow>
        computeChecksum env path sz = Inr (Sum256 env d)) \<and>
   (\<forall>d. Open env path = Some (Regular d) \<and> int (length d) = sz \<and> 128000 \<le> sz \<longrightarrow>
        computeChecksum env path sz =
          Inr (Sum256 env (take 128000 (drop (nat ((sz - 128000) div 2)) d))) \<and>
        length (take 128000 (drop (nat ((sz - 128000) div 2)) d)) = 128000)"
proof -
  have 1: "\<exists>err. computeChecksum env path sz = Inl err" if "Open env path = None"
    using that by (simp add: computeChecksum_def)
  have 2: "computeChecksum env path sz = Inl (Wrap ''cannot read from file %s'' err)"
    if "Open env path = Some f \<and> 0 \<le> sz \<and> sz < 128000 \<and> Read f 0 (nat sz) = Inl err"
    for f err
    using that by (simp add: computeChecksum_def dataToRead_def)
  have 3: "computeChecksum env path sz = Inl (Wrap ''cannot read from file %s'' err)"
    if "Open env path = Some f \<and> 128000 \<le> sz \<and>
        Read f (nat ((sz - 128000) div 2)) 128000 = Inl err"
    for f err
    using that by (simp add: computeChecksum_def dataToRead_def Seek_def)
  have 4: "computeChecksum env path sz = Inr (Sum256 env d)"
    if "Open env path = Some (Regular d) \<and> int (length d) = sz \<and> sz < 128000" for d
    using that Read_whole [of d] by (auto simp: computeChecksum_def dataToRead_def)
  have 5: "computeChecksum env path sz =
             Inr (Sum256 env (take 128000 (drop (nat ((sz - 128000) div 2)) d))) \<and>
           length (take 128000 (drop (nat ((sz - 128000) div 2)) d)) = 128000"
    if a: "Open env path = Some (Regular d) \<and> int (length d) = sz \<and> 128000 \<le> sz" for d
  proof -
    let ?off = "nat ((sz - 128000) div 2)"
    from a have fit: "?off + 128000 \<le> length d" by linarith
    have "Read (Regular d) ?off 128000 = Inr (take 128000 (drop ?off d))"
      by (rule Read_middle [OF fit]) simp
    with a fit show ?thesis
      by (simp add: computeChecksum_def dataToRead_def Seek_def)
  qed
  from 1 2 3 4 5 show ?thesis by blast
qed

theorem computeChecksum_spec_witness:
  "Open ex_env ''/r/a'' = Some (Regular [1, 2, 3]) \<and>
   computeChecksum ex_env ''/r/a'' 3 = Inr (Sum256 ex_env [1, 2, 3]) \<and>
   Open ex_env ''/r/big'' = Some (Regular (replicate 200000 9)) \<and>
   computeChecksum ex_env ''/r/big'' 200000 = Inr (Sum256 ex_env (replicate 128000 9)) \<and>
   Open ex_env ''/r/none'' = None \<and>
   (\<exists>err. computeChecksum ex_env ''/r/none'' 3 = Inl err) \<and>
   Open ex_env ''/r/d'' = Some Unreadable \<and>
   Read Unreadable 0 (nat 3) = Inl (Failure ''read'') \<and>
   computeChecksum ex_env ''/r/d'' 3 = Inl (Wrap ''cannot read from file %s'' (Failure ''read''))"
proof -
  have o: "Open ex_env ''/r/a'' = Some (Regular [1, 2, 3])"
    "Open ex_env ''/r/big'' = Some (Regular (replicate 200000 9))"
    "Open ex_env ''/r/none'' = None" "Open ex_env ''/r/d'' = Some Unreadable"
    by (simp_all add: ex_env_def)
  have r: "Read Unreadable 0 (nat 3) = Inl (Failure ''read'')"
    by (simp add: Read_def)
  from computeChecksum_spec [of ex_env "''/r/a''" 3] o
  have 1: "computeChecksum ex_env ''/r/a'' 3 = Inr (Sum256 ex_env [1, 2, 3])" by simp
  from computeChecksum_spec [of ex_env "''/r/big''" 200000] o
  have 2: "computeChecksum ex_env ''/r/big'' 200000 = Inr (Sum256 ex_env (replicate 128000 9))"
    by simp
  from computeChecksum_spec [of ex_env "''/r/none''" 3] o
  have 3: "\<exists>err. computeChecksum ex_env ''/r/none'' 3 = Inl err" by simp
  from computeChecksum_spec [of ex_env "''/r/d''" 3] o r
  have 4: "computeChecksum ex_env ''/r/d'' 3 = Inl (Wrap ''cannot read from file %s'' (Failure ''read''))"
    by simp
  from o r 1 2 3 4 show ?thesis by simp
qed

section \<open>The upload\<close>

lemma respond_objects: "respond c = (ok, c') \<Longrightarrow> objects c' = objects c \<and> dir c' = dir c"
  by (auto simp: respond_def split: list.splits)

lemma respond_quiet: "responses c = [] \<Longrightarrow> respond c = (True, c)"
  by (simp add: respond_def)

lemma Attrs_result:
  "Attrs c name = (r, c') \<Longrightarrow>
     objects c' = objects c \<and>
     (case r of
        Inr a \<Rightarrow> objects c name = Some a
      | Inl err \<Rightarrow> err = ErrObjectNotExist \<longrightarrow> objects c name = None)"
  by (auto simp: Attrs_def split: prod.splits if_splits option.splits dest: respond_objects)

lemma Attrs_through:
  "fst (respond c) \<Longrightarrow> fst (Attrs c name) = (case objects c name of None \<Rightarrow> Inl ErrObjectNotExist | Some a \<Rightarrow> Inr a)"
  by (auto simp: Attrs_def split: prod.splits option.splits dest: respond_objects)

lemma Upload_present:
  assumes "objects i (Join env (dir i) p) = Some a"
  shows "objects (snd (Upload env i fp p sz hash)) = objects i"
proof (cases "Open env fp")
  case None
  then show ?thesis by (simp add: Upload_def)
next
  case (Some src)
  obtain r i1 where at: "Attrs i (Join env (dir i) p) = (r, i1)"
    by (cases "Attrs i (Join env (dir i) p)")
  from Attrs_result [OF at] assms have o: "objects i1 = objects i" and
    r: "(\<exists>a'. r = Inr a') \<or> (\<exists>err. r = Inl err \<and> err \<noteq> ErrObjectNotExist)"
    by (cases r; auto)+
  from r show ?thesis
    using Some at o by (auto simp: Upload_def Let_def)
qed

lemma Upload_conflict:
  assumes "Open env fp = Some src" "objects i (Join env (dir i) p) = Some a"
    "\<not> (attrSize a = sz \<and> attrMetadata a metadataHashKey = encode hash)"
  shows "\<exists>err. fst (Upload env i fp p sz hash) = (Join env (dir i) p, [], Some err)"
proof -
  obtain r i1 where at: "Attrs i (Join env (dir i) p) = (r, i1)"
    by (cases "Attrs i (Join env (dir i) p)")
  from Attrs_result [OF at] assms have
    r: "r = Inr a \<or> (\<exists>err. r = Inl err \<and> err \<noteq> ErrObjectNotExist)"
    by (cases r) auto
  from r show ?thesis
    using assms at by (auto simp: Upload_def Let_def)
qed

lemma Upload_same:
  assumes "Open env fp = Some src" "objects i (Join env (dir i) p) = Some a"
    "attrSize a = sz" "attrMetadata a metadataHashKey = encode hash" "fst (respond i)"
  shows "fst (Upload env i fp p sz hash) = (Join env (dir i) p, attrMD5 a, None)"
proof -
  obtain r i1 where at: "Attrs i (Join env (dir i) p) = (r, i1)"
    by (cases "Attrs i (Join env (dir i) p)")
  from Attrs_through [OF assms(5), of "Join env (dir i) p"] at assms(2) have "r = Inr a" by simp
  with assms at show ?thesis by (simp add: Upload_def Let_def)
qed

lemma Upload_fresh:
  assumes "Open env fp = Some (Regular d)" "objects i (Join env (dir i) p) = None"
    "responses i = []"
  shows "Upload env i fp p sz hash =
    ((Join env (dir i) p, RemoteMD5 env d, None),
     i\<lparr>objects := (objects i)(Join env (dir i) p \<mapsto>
        \<lparr>attrSize = int (length d),
         attrMetadata = (\<lambda>k. [])(metadataHashKey := encode hash),
         attrMD5 = RemoteMD5 env d\<rparr>)\<rparr>)"
  using assms
  by (simp add: Upload_def Let_def Attrs_def Copy_def Close_def Object_Update_def respond_quiet)


text \<open>
  C9. \<open>Upload\<close>, for a local path, a logical path, a size and a digest, with the object
  path \<open>Join env (dir i) p\<close>. When an object exists at the object path, no call of
  \<open>Upload\<close> changes the objects of the remote store: the object is never overwritten.
  When it exists, the local file opens, the remote call goes through, and the object's
  size and its digest attribute equal the size and the digest supplied, \<open>Upload\<close>
  succeeds and returns the checksum of the existing object. When it exists and its size or
  its digest attribute differs, \<open>Upload\<close> returns an error. When no object exists, the
  local file is readable and the remote calls go through, \<open>Upload\<close> creates the object
  from the bytes of the file, attaches the digest under the metadata key, and returns the
  checksum of the new object.
\<close>

theorem Upload_spec:
  "(\<forall>a. objects i (Join env (dir i) p) = Some a \<longrightarrow>
        objects (snd (Upload env i fp p sz hash)) = objects i) \<and>
   (\<forall>src a. Open env fp = Some src \<and> fst (respond i) \<and>
        objects i (Join env (dir i) p) = Some a \<and>
        attrSize a = sz \<and> attrMetadata a metadataHashKey = encode hash \<longrightarrow>
        fst (Upload env i fp p sz hash) = (Join env (dir i) p, attrMD5 a, None)) \<and>
   (\<forall>src a. Open env fp = Some src \<and> objects i (Join env (dir i) p) = Some a \<and>
        \<not> (attrSize a = sz \<and> attrMetadata a metadataHashKey = encode hash) \<longrightarrow>
        (\<exists>err. fst (Upload env i fp p sz hash) = (Join env (dir i) p, [], Some err))) \<and>
   (\<forall>d. Open env fp = Some (Regular d) \<and> objects i (Join env (dir i) p) = None \<and>
        responses i = [] \<longrightarrow>
        Upload env i fp p sz hash =
          ((Join env (dir i) p, RemoteMD5 env d, None),
           i\<lparr>objects := (objects i)(Join env (dir i) p \<mapsto>
              \<lparr>attrSize = int (length d),
               attrMetadata = (\<lambda>k. [])(metadataHashKey := encode hash),
               attrMD5 = RemoteMD5 env d\<rparr>)\<rparr>))"
  using Upload_present [of i env p _ fp sz hash] Upload_same [of env fp _ i p _ sz hash]
    Upload_conflict [of env fp _ i p _ sz hash] Upload_fresh [of env fp _ i p sz hash]
  by blast

lemma ex_open_a: "Open ex_env ''/r/a'' = Some (Regular [1, 2, 3])"
  by (simp add: ex_env_def)

lemma ex_join: "Join ex_env a b = a @ ''/'' @ b" "dir (ex_cloud os) = ''bk''"
  by (simp_all add: ex_env_def ex_cloud_def)

lemma ex_remote_md5: "RemoteMD5 ex_env [1, 2, 3] = ex_md5"
  by (simp add: ex_env_def ex_md5_def)

theorem Upload_spec_witness:
  "Upload ex_env (ex_cloud Map.empty) ''/r/a'' ''a'' 3 ex_hash =
     ((''bk/a'', ex_md5, None), ex_cloud [''bk/a'' \<mapsto> ex_object]) \<and>
   fst (Upload ex_env (ex_cloud [''bk/a'' \<mapsto> ex_object]) ''/r/a'' ''a'' 3 ex_hash) =
     (''bk/a'', ex_md5, None) \<and>
   objects (snd (Upload ex_env (ex_cloud [''bk/a'' \<mapsto> ex_object]) ''/r/a'' ''a'' 3 ex_hash)) =
     [''bk/a'' \<mapsto> ex_object] \<and>
   (\<exists>err. fst (Upload ex_env (ex_cloud [''bk/a'' \<mapsto> ex_object]) ''/r/a'' ''a'' 4 ex_hash) =
     (''bk/a'', [], Some err)) \<and>
   objects (snd (Upload ex_env (ex_cloud [''bk/a'' \<mapsto> ex_object]) ''/r/a'' ''a'' 4 ex_hash)) =
     [''bk/a'' \<mapsto> ex_object]"
proof -
  let ?c1 = "ex_cloud [''bk/a'' \<mapsto> ex_object]"
  have none: "objects (ex_cloud Map.empty) ''bk/a'' = None" "responses (ex_cloud Map.empty) = []"
    by (simp_all add: ex_cloud_def)
  have some: "objects ?c1 ''bk/a'' = Some ex_object" "fst (respond ?c1)"
    "attrSize ex_object = 3" "attrMetadata ex_object metadataHashKey = encode ex_hash"
    "attrMD5 ex_object = ex_md5" "objects ?c1 = [''bk/a'' \<mapsto> ex_object]"
    by (simp_all add: ex_cloud_def respond_def ex_object_def)
  from Upload_spec [of "ex_cloud Map.empty" ex_env "''a''" "''/r/a''" 3 ex_hash]
    ex_open_a none
  have 1: "Upload ex_env (ex_cloud Map.empty) ''/r/a'' ''a'' 3 ex_hash =
     ((''bk/a'', ex_md5, None), ?c1)"
    by (simp add: ex_join ex_remote_md5 ex_cloud_def ex_object_def)
  from Upload_spec [of ?c1 ex_env "''a''" "''/r/a''" 3 ex_hash] ex_open_a some
  have 2: "fst (Upload ex_env ?c1 ''/r/a'' ''a'' 3 ex_hash) = (''bk/a'', ex_md5, None)"
    "objects (snd (Upload ex_env ?c1 ''/r/a'' ''a'' 3 ex_hash)) = [''bk/a'' \<mapsto> ex_object]"
    by (simp_all add: ex_join)
  from Upload_spec [of ?c1 ex_env "''a''" "''/r/a''" 4 ex_hash] ex_open_a some
  have 3: "\<exists>err. fst (Upload ex_env ?c1 ''/r/a'' ''a'' 4 ex_hash) = (''bk/a'', [], Some err)"
    "objects (snd (Upload ex_env ?c1 ''/r/a'' ''a'' 4 ex_hash)) = [''bk/a'' \<mapsto> ex_object]"
    by (simp_all add: ex_join)
  from 1 2 3 show ?thesis by simp
qed

section \<open>The decision for one file\<close>

lemma Add_not_added:
  assumes "Add env i path sz sha256 = ((False, eid, rPath, rErr), i')"
  shows "Get (bucket i) (computeKey sz sha256) \<noteq> None \<and> bucket i' = bucket i"
  using Add_cases [OF assms] by (cases "Get (bucket i) (computeKey sz sha256)") auto

lemma Add_present:
  assumes "Add env i path sz sha256 = (r, i')" "Get (bucket i) (computeKey sz sha256) = Some v"
  shows "bucket i' = bucket i"
proof -
  obtain added eid rPath rErr where "r = (added, eid, rPath, rErr)" by (cases r)
  with Add_cases [of env i path sz sha256 added eid rPath rErr i'] assms show ?thesis by simp
qed

lemma ex_rel: "Rel ex_env ''/r'' (''/r/'' @ p) = Inr p"
  by (simp add: ex_env_def)

lemma ex_sum: "computeChecksum ex_env ''/r/a'' 3 = Inr ex_hash"
  "computeChecksum ex_env ''/r/b'' 3 = Inr ex_hash"
  by (simp_all add: computeChecksum_def dataToRead_def Read_def ex_env_def ex_hash_def)

lemma ex_run_Add_again:
  "Add ex_env (ex_db [2] []) path 3 ex_hash = ((False, 1, ''a'', None), ex_db [2] [])"
  by (simp add: Add_def tx_Update_def Add_tx_def ex_db_def Get_def ex_key_def [symmetric]
      decodeEntry_def ex_env_def ex_done_def ex_md5_nonempty)

lemma ex_run_Upload:
  "Upload ex_env (ex_cloud Map.empty) ''/r/a'' ''a'' 3 ex_hash =
     ((''bk/a'', ex_md5, None), ex_cloud [''bk/a'' \<mapsto> ex_object])"
  using Upload_fresh [of ex_env "''/r/a''" "[1, 2, 3]" "ex_cloud Map.empty" "''a''" 3 ex_hash]
  by (simp add: ex_open_a ex_join ex_remote_md5) (simp add: ex_cloud_def ex_object_def)

lemma ex_run_Update_done:
  "Update ex_env (ex_db [1] cs) 3 ex_hash (\<lambda>e. Inr (e\<lparr>Cloud := ''bk/a'', MD5 := ex_md5\<rparr>)) =
     (case cs of [] \<Rightarrow> (None, ex_db [2] [])
      | ok # cs' \<Rightarrow> if ok then (None, ex_db [2] cs') else (Some (Failure ''commit''), ex_db [1] cs'))"
  using ex_key_nonempty
  by (simp add: Update_def tx_Update_def Update_tx_def ex_db_def Get_def ex_key_def [symmetric]
      decodeEntry_def encodeAndPut_def Entry_encode_def Put_def ex_env_def ex_done_def ex_new_def
      split: list.splits)

lemma ex_work_upload:
  "work ex_env (ex_walker ex_db_empty (ex_cloud Map.empty) (\<lambda>_. False) []) ''/r/a'' 3 =
     (None, ex_walker (ex_db [2] []) (ex_cloud [''bk/a'' \<mapsto> ex_object])
        ((\<lambda>_. False)(1 := True)) [Uploaded ''a''])"
  using ex_rel [of "''a''"]
  by (simp add: work_def ex_walker_def ex_sum ex_run_Add_absent ex_run_Upload ex_run_Update_done)

lemma ex_work_duplicate:
  "work ex_env (ex_walker (ex_db [2] []) (ex_cloud [''bk/a'' \<mapsto> ex_object])
        ((\<lambda>_. False)(1 := True)) ou) ''/r/b'' 3 =
     (None, ex_walker (ex_db [2] []) (ex_cloud [''bk/a'' \<mapsto> ex_object])
        ((\<lambda>_. False)(1 := True)) (ou @ [Duplicate ''/r/b'' ''/r/a'']))"
  using ex_rel [of "''b''"]
  by (simp add: work_def ex_walker_def ex_sum ex_run_Add_again ex_join)

lemma ex_work_rename:
  "work ex_env (ex_walker (ex_db [2] []) (ex_cloud [''bk/a'' \<mapsto> ex_object])
        (\<lambda>_. False) []) ''/r/b'' 3 =
     (None, ex_walker (ex_db [3] []) (ex_cloud [''bk/a'' \<mapsto> ex_object])
        ((\<lambda>_. False)(1 := True)) [Renamed ''/r/a'' ''b''])"
  using ex_rel [of "''b''"]
  by (simp add: work_def ex_walker_def ex_sum ex_run_Add_again ex_run_Update ex_join)

lemma ex_work_nothing:
  "work ex_env (ex_walker (ex_db [2] []) (ex_cloud [''bk/a'' \<mapsto> ex_object])
        (\<lambda>_. False) []) ''/r/a'' 3 =
     (None, ex_walker (ex_db [2] []) (ex_cloud [''bk/a'' \<mapsto> ex_object])
        ((\<lambda>_. False)(1 := True)) [])"
  using ex_rel [of "''a''"]
  by (simp add: work_def ex_walker_def ex_sum ex_run_Add_again)


lemma ex_walker_sel:
  "db (ex_walker d c t ou) = d" "cloud (ex_walker d c t ou) = c" "root (ex_walker d c t ou) = ''/r''"
  "touched (ex_walker d c t ou) = t" "out (ex_walker d c t ou) = ou"
  by (simp_all add: ex_walker_def)

section \<open>The rename branch\<close>

lemma length_computeKey: "length (computeKey sz h) = 8 + length h"
  by (simp add: computeKey_def PutUint64_def)

lemma tx_Update_quiet:
  "commits d = [] \<Longrightarrow>
     tx_Update d fn =
       (case fn (bucket d) of
          (r, Inl err) \<Rightarrow> (r, Some err, d)
        | (r, Inr b) \<Rightarrow> (r, None, d\<lparr>bucket := b\<rparr>))"
  by (simp add: tx_Update_def split: prod.splits sum.splits)

lemma Add_found:
  assumes "Get (bucket d) (computeKey sz h) = Some v" "decodeEntry env v = Inr e"
    "commits d = []"
  shows "Add env d p sz h = ((Cloud e = [] \<or> MD5 e = [], ID e, Path e, None), d)"
  using assms by (simp add: Add_def tx_Update_quiet Add_tx_def)

lemma Update_done:
  assumes "Get (bucket d) (computeKey sz h) = Some v" "decodeEntry env v = Inr e"
    "fn e = Inr e'" "Entry_encode env e' = Inr b" "length b \<le> 2147483646" "length h = 32"
    "commits d = []"
  shows "Update env d sz h fn =
    (None, d\<lparr>bucket := (bucket d)\<lparr>pairs := put_pair (computeKey sz h) b (pairs (bucket d))\<rparr>\<rparr>)"
proof -
  have "computeKey sz h \<noteq> []" "length (computeKey sz h) \<le> 32768"
    using length_computeKey [of sz h] assms(6) by auto
  with assms show ?thesis
    by (simp add: Update_def tx_Update_quiet Update_tx_def encodeAndPut_def Put_def)
qed

text \<open>
  C4. A file whose content key is in the store with a value that decodes to a complete
  entry \<open>e\<close> (\<open>Cloud\<close> and \<open>MD5\<close> not empty), whose id is not touched and whose
  stored path is not the file's relative path \<open>p\<close>. Whatever \<open>work\<close> returns, it does
  not call the remote store (its state, with the outcomes of the calls to come, is what
  it was), the values of all other keys and the sequence are unchanged, and the value of
  the key is either what it was or the encoding of \<open>e\<close> with \<open>Path\<close> set to \<open>p\<close>
  and every other field as it was. When moreover no commit fails and that entry can be
  encoded and written, \<open>work\<close> returns no error, the value of the key is that encoding,
  and the rename is printed.
\<close>

theorem work_rename:
  assumes rel: "Rel env (root i) fp = Inr p"
    and sum: "computeChecksum env fp sz = Inr hsum"
    and get: "Get (bucket (db i)) (computeKey sz hsum) = Some v"
    and dec: "decodeEntry env v = Inr e"
    and complete: "Cloud e \<noteq> [] \<and> MD5 e \<noteq> []"
    and fresh: "\<not> touched i (ID e)"
    and moved: "Path e \<noteq> p"
    and run: "work env i fp sz = (rErr, i')"
  shows "cloud i' = cloud i \<and>
    (\<forall>k. k \<noteq> computeKey sz hsum \<longrightarrow> Get (bucket (db i')) k = Get (bucket (db i)) k) \<and>
    sequence (bucket (db i')) = sequence (bucket (db i)) \<and>
    (Get (bucket (db i')) (computeKey sz hsum) = Some v \<or>
     (\<exists>b. Entry_encode env (e\<lparr>Path := p\<rparr>) = Inr b \<and>
          Get (bucket (db i')) (computeKey sz hsum) = Some b)) \<and>
    (\<forall>b. commits (db i) = [] \<and> length hsum = 32 \<and>
         Entry_encode env (e\<lparr>Path := p\<rparr>) = Inr b \<and> length b \<le> 2147483646 \<longrightarrow>
         rErr = None \<and> Get (bucket (db i')) (computeKey sz hsum) = Some b \<and>
         out i' = out i @ [Renamed (Join env (root i) (Path e)) p])"
proof -
  let ?key = "computeKey sz hsum"
  let ?fn = "\<lambda>e. Inr (e\<lparr>Path := p\<rparr>) :: error + Entry"
  obtain added eid dbpath aErr d1 where
    add: "Add env (db i) p sz hsum = ((added, eid, dbpath, aErr), d1)"
    by (cases "Add env (db i) p sz hsum") auto
  from Add_cases [OF add] get dec complete have
    res: "\<not> added" "eid = ID e" "dbpath = Path e" and b1: "bucket d1 = bucket (db i)"
    by auto
  obtain uErr d2 where upd: "Update env d1 sz hsum ?fn = (uErr, d2)"
    by (cases "Update env d1 sz hsum ?fn")
  have shape: "(aErr \<noteq> None \<and> db i' = d1 \<and> cloud i' = cloud i) \<or>
      (aErr = None \<and> rErr = None \<and> db i' = d2 \<and> cloud i' = cloud i \<and>
       out i' = out i @ [Renamed (Join env (root i) (Path e)) p])"
    using run rel sum add res fresh moved upd
    by (cases aErr) (auto simp: work_def Let_def)
  have frame2: "(\<forall>k. k \<noteq> ?key \<longrightarrow> Get (bucket d2) k = Get (bucket d1) k) \<and>
      sequence (bucket d2) = sequence (bucket d1) \<and>
      (Get (bucket d2) ?key = Some v \<or>
       (\<exists>b. Entry_encode env (e\<lparr>Path := p\<rparr>) = Inr b \<and> Get (bucket d2) ?key = Some b))"
    using Update_cases [OF upd] get dec b1 by (cases uErr) auto
  have good: "rErr = None \<and> Get (bucket (db i')) ?key = Some b \<and>
      out i' = out i @ [Renamed (Join env (root i) (Path e)) p]"
    if h: "commits (db i) = [] \<and> length hsum = 32 \<and>
      Entry_encode env (e\<lparr>Path := p\<rparr>) = Inr b \<and> length b \<le> 2147483646" for b
  proof -
    from Add_found [OF get dec, of p] h add have a: "aErr = None" "d1 = db i" by auto
    from Update_done [of "db i" sz hsum v env e ?fn "e\<lparr>Path := p\<rparr>" b] get dec h upd a
    have "Get (bucket d2) ?key = Some b"
      by (auto simp: Get_def map_of_put_pair)
    with shape a show ?thesis by auto
  qed
  from shape frame2 b1 get have "cloud i' = cloud i"
    and "\<forall>k. k \<noteq> ?key \<longrightarrow> Get (bucket (db i')) k = Get (bucket (db i)) k"
    and "sequence (bucket (db i')) = sequence (bucket (db i))"
    and "Get (bucket (db i')) ?key = Some v \<or>
      (\<exists>b. Entry_encode env (e\<lparr>Path := p\<rparr>) = Inr b \<and> Get (bucket (db i')) ?key = Some b)"
    by auto
  with good show ?thesis by blast
qed


lemma ex_done_facts:
  "Cloud ex_done \<noteq> [] \<and> MD5 ex_done \<noteq> []" "Path ex_done \<noteq> ''b''" "ID ex_done = 1"
  "ex_done\<lparr>Path := ''b''\<rparr> = ex_moved" "length ex_hash = 32"
  by (simp_all add: ex_done_def ex_moved_def ex_md5_def ex_hash_def)

lemma ex_codec:
  "decodeEntry ex_env [2] = Inr ex_done" "decodeEntry ex_env [3] = Inr ex_moved"
  "Entry_encode ex_env ex_moved = Inr [3]"
  by (simp_all add: decodeEntry_def Entry_encode_def ex_env_def ex_moved_def ex_done_def ex_new_def)

lemma ex_get: "Get (bucket (ex_db v cs)) (computeKey 3 ex_hash) = Some v"
  "commits (ex_db v cs) = cs"
  by (simp_all add: ex_db_def Get_def ex_key_def)

theorem work_rename_witness:
  "work ex_env (ex_walker (ex_db [2] []) (ex_cloud [''bk/a'' \<mapsto> ex_object])
        (\<lambda>_. False) []) ''/r/b'' 3 =
     (None, ex_walker (ex_db [3] []) (ex_cloud [''bk/a'' \<mapsto> ex_object])
        ((\<lambda>_. False)(1 := True)) [Renamed ''/r/a'' ''b'']) \<and>
   Get (bucket (ex_db [2] [])) (computeKey 3 ex_hash) = Some [2] \<and>
   decodeEntry ex_env [2] = Inr ex_done \<and>
   Cloud ex_done \<noteq> [] \<and> MD5 ex_done \<noteq> [] \<and> Path ex_done \<noteq> ''b'' \<and>
   Entry_encode ex_env (ex_done\<lparr>Path := ''b''\<rparr>) = Inr [3] \<and>
   Get (bucket (ex_db [3] [])) (computeKey 3 ex_hash) = Some [3] \<and>
   sequence (bucket (ex_db [3] [])) = sequence (bucket (ex_db [2] []))"
proof -
  let ?i = "ex_walker (ex_db [2] []) (ex_cloud [''bk/a'' \<mapsto> ex_object]) (\<lambda>_. False) []"
  have rel: "Rel ex_env (root ?i) ''/r/b'' = Inr ''b''"
    using ex_rel [of "''b''"] by (simp add: ex_walker_sel)
  have get: "Get (bucket (db ?i)) (computeKey 3 ex_hash) = Some [2]"
    by (simp add: ex_walker_sel ex_get)
  have fresh: "\<not> touched ?i (ID ex_done)"
    by (simp add: ex_walker_sel)
  from work_rename [OF rel ex_sum(2) get ex_codec(1) ex_done_facts(1) fresh ex_done_facts(2)
      ex_work_rename]
  have "Get (bucket (ex_db [3] [])) (computeKey 3 ex_hash) = Some [3] \<and>
    sequence (bucket (ex_db [3] [])) = sequence (bucket (ex_db [2] []))"
    by (simp add: ex_walker_sel ex_get(2) ex_done_facts ex_codec)
  then show ?thesis
    by (simp add: ex_work_rename ex_get ex_codec ex_done_facts)
qed

section \<open>Errors of one file\<close>

lemma ex_run_Add_commit:
  "Add ex_env (ex_db_empty\<lparr>commits := [True, False]\<rparr>) ''a'' 3 ex_hash =
     ((True, 1, [], None), ex_db [1] [False])"
  using ex_key_nonempty
  by (simp add: Add_def tx_Update_def Add_tx_def ex_db_def ex_db_empty_def Get_def
      ex_key_def [symmetric] NextSequence_def encodeAndPut_def Entry_encode_def Put_def
      ex_env_def ex_new_def)

text \<open>
  C5. The claim fails on \<open>work\<close>: the error that \<open>Update\<close> returns is dropped. The
  store is empty and its second commit fails; the file \<open>/r/a\<close> is new. \<open>Add\<close> commits
  the entry, the upload succeeds, and the \<open>Update\<close> that should record the remote path
  and the checksum fails at its commit. \<open>work\<close> returns no error all the same and prints
  the upload, the worker prints no line for the failure, and the entry stays without
  \<open>Cloud\<close> and \<open>MD5\<close>.
\<close>

theorem work_drops_Update_error:
  "Update ex_env (ex_db [1] [False]) 3 ex_hash
     (\<lambda>e. Inr (e\<lparr>Cloud := ''bk/a'', MD5 := ex_md5\<rparr>)) =
     (Some (Failure ''commit''), ex_db [1] []) \<and>
   work ex_env
     (ex_walker (ex_db_empty\<lparr>commits := [True, False]\<rparr>) (ex_cloud Map.empty) (\<lambda>_. False) [])
     ''/r/a'' 3 =
     (None, ex_walker (ex_db [1] []) (ex_cloud [''bk/a'' \<mapsto> ex_object])
        ((\<lambda>_. False)(1 := True)) [Uploaded ''a'']) \<and>
   worker ex_env
     (ex_walker (ex_db_empty\<lparr>commits := [True, False]\<rparr>) (ex_cloud Map.empty) (\<lambda>_. False) [])
     [(''/r/a'', 3)] =
     ex_walker (ex_db [1] []) (ex_cloud [''bk/a'' \<mapsto> ex_object])
        ((\<lambda>_. False)(1 := True)) [Uploaded ''a''] \<and>
   Get (bucket (ex_db [1] [])) (computeKey 3 ex_hash) = Some [1] \<and>
   decodeEntry ex_env [1] = Inr ex_new \<and> Cloud ex_new = [] \<and> MD5 ex_new = []"
proof -
  have u: "Update ex_env (ex_db [1] [False]) 3 ex_hash
     (\<lambda>e. Inr (e\<lparr>Cloud := ''bk/a'', MD5 := ex_md5\<rparr>)) =
     (Some (Failure ''commit''), ex_db [1] [])"
    by (simp add: ex_run_Update_done)
  have w: "work ex_env
     (ex_walker (ex_db_empty\<lparr>commits := [True, False]\<rparr>) (ex_cloud Map.empty) (\<lambda>_. False) [])
     ''/r/a'' 3 =
     (None, ex_walker (ex_db [1] []) (ex_cloud [''bk/a'' \<mapsto> ex_object])
        ((\<lambda>_. False)(1 := True)) [Uploaded ''a''])"
    using ex_rel [of "''a''"]
    by (simp add: work_def ex_walker_def ex_sum ex_run_Add_commit ex_run_Upload u)
  have e: "decodeEntry ex_env [1] = Inr ex_new \<and> Cloud ex_new = [] \<and> MD5 ex_new = []"
    by (simp add: decodeEntry_def ex_env_def ex_new_def)
  from u w e show ?thesis by (simp add: ex_get)
qed

section \<open>Entries stay balanced\<close>

lemma set_put_pair: "set (put_pair k v ps) \<subseteq> insert (k, v) (set ps)"
  by (induction ps) (auto split: if_splits)

lemma balanced_put_pair:
  assumes "stored_balanced env ps" "Entry_encode env e = Inr v" "balanced e"
  shows "stored_balanced env (put_pair k v ps)"
  unfolding stored_balanced_def
proof
  fix kv
  assume "kv \<in> set (put_pair k v ps)"
  with set_put_pair [of k v ps] have "kv = (k, v) \<or> kv \<in> set ps" by auto
  with assms show "\<exists>e. Entry_encode env e = Inr (snd kv) \<and> balanced e"
    by (auto simp: stored_balanced_def)
qed

lemma roundtrip_decode:
  assumes "\<forall>e b. Encode env e = Inr b \<longrightarrow> Decode env b = Inr e"
    and "Entry_encode env e = Inr b"
  shows "decodeEntry env b = Inr e"
proof -
  from assms(2) have "Encode env e = Inr b"
    by (auto simp: Entry_encode_def split: sum.splits)
  with assms(1) have "Decode env b = Inr e" by blast
  then show ?thesis by (simp add: decodeEntry_def)
qed

lemma Add_pairs:
  assumes "Add env d p sz h = (r, d')"
  shows "pairs (bucket d') = pairs (bucket d) \<or>
    (\<exists>b. Entry_encode env
           \<lparr>ID = sequence (bucket d) + 1, Path = p, Cloud = [], Size = sz, Hash = h, MD5 = []\<rparr> = Inr b \<and>
         pairs (bucket d') = put_pair (computeKey sz h) b (pairs (bucket d)))"
proof -
  let ?fn = "Add_tx env (computeKey sz h) p sz h"
  obtain res rErr where tx: "tx_Update d ?fn = (res, rErr, d')"
    using assms by (auto simp: Add_def split: prod.splits)
  note c = tx_Update_cases [OF tx]
  show ?thesis
  proof (cases rErr)
    case (Some err)
    with c show ?thesis by simp
  next
    case None
    with c have run: "snd (?fn (bucket d)) = Inr (bucket d')" by simp
    show ?thesis
    proof (cases "Get (bucket d) (computeKey sz h)")
      case (Some v)
      with run show ?thesis by (auto simp: Add_tx_def split: sum.splits)
    next
      case None
      with run have "encodeAndPut env ((bucket d)\<lparr>sequence := sequence (bucket d) + 1\<rparr>)
          (computeKey sz h)
          \<lparr>ID = sequence (bucket d) + 1, Path = p, Cloud = [], Size = sz, Hash = h, MD5 = []\<rparr> =
          Inr (bucket d')"
        by (simp add: Add_tx_def NextSequence_def)
      from encodeAndPut_Inr [OF this] show ?thesis
        by (auto dest: Put_frame)
    qed
  qed
qed

lemma Update_pairs:
  assumes "Update env d sz h fn = (r, d')"
  shows "pairs (bucket d') = pairs (bucket d) \<or>
    (\<exists>v e e' b. Get (bucket d) (computeKey sz h) = Some v \<and> decodeEntry env v = Inr e \<and>
       fn e = Inr e' \<and> Entry_encode env e' = Inr b \<and>
       pairs (bucket d') = put_pair (computeKey sz h) b (pairs (bucket d)))"
proof -
  obtain u where tx: "tx_Update d (Update_tx env (computeKey sz h) fn) = (u, r, d')"
    using assms by (cases "tx_Update d (Update_tx env (computeKey sz h) fn)") (auto simp: Update_def)
  note c = tx_Update_cases [OF tx]
  show ?thesis
  proof (cases r)
    case (Some err)
    with c show ?thesis by simp
  next
    case None
    with c have "snd (Update_tx env (computeKey sz h) fn (bucket d)) = Inr (bucket d')" by simp
    then obtain v e e' where
      "Get (bucket d) (computeKey sz h) = Some v" "decodeEntry env v = Inr e" "fn e = Inr e'"
      "encodeAndPut env (bucket d) (computeKey sz h) e' = Inr (bucket d')"
      by (auto simp: Update_tx_def split: option.splits sum.splits)
    then show ?thesis
      by (auto dest!: encodeAndPut_Inr dest: Put_frame)
  qed
qed

lemma Add_balanced:
  assumes "stored_balanced env (pairs (bucket d))" and "Add env d p sz h = (r, d')"
  shows "stored_balanced env (pairs (bucket d'))"
  using Add_pairs [OF assms(2)] assms(1)
  by (auto intro!: balanced_put_pair simp: balanced_def)

lemma Update_balanced:
  assumes "stored_balanced env (pairs (bucket d))" and "Update env d sz h fn = (r, d')"
    and "\<And>v e e'. Get (bucket d) (computeKey sz h) = Some v \<Longrightarrow> decodeEntry env v = Inr e \<Longrightarrow>
           fn e = Inr e' \<Longrightarrow> balanced e'"
  shows "stored_balanced env (pairs (bucket d'))"
proof -
  from Update_pairs [OF assms(2)] show ?thesis
  proof
    assume "pairs (bucket d') = pairs (bucket d)"
    with assms(1) show ?thesis by simp
  next
    assume "\<exists>v e e' b. Get (bucket d) (computeKey sz h) = Some v \<and> decodeEntry env v = Inr e \<and>
       fn e = Inr e' \<and> Entry_encode env e' = Inr b \<and>
       pairs (bucket d') = put_pair (computeKey sz h) b (pairs (bucket d))"
    then obtain v e e' b where
      g: "Get (bucket d) (computeKey sz h) = Some v" "decodeEntry env v = Inr e" and
      f: "fn e = Inr e'" and b: "Entry_encode env e' = Inr b" and
      p: "pairs (bucket d') = put_pair (computeKey sz h) b (pairs (bucket d))"
      by blast
    from assms(3) [OF g f] have "balanced e'" .
    with assms(1) b p show ?thesis by (simp add: balanced_put_pair)
  qed
qed

lemma Close_objects:
  assumes "\<forall>d. RemoteMD5 env d \<noteq> []"
    and "\<forall>name a. objects c name = Some a \<longrightarrow> attrMD5 a \<noteq> []"
    and "Close env c cl d = (r, c')"
  shows "\<forall>name a. objects c' name = Some a \<longrightarrow> attrMD5 a \<noteq> []"
  using assms
  by (auto simp: Close_def split: prod.splits if_splits dest!: respond_objects)

lemma Object_Update_objects:
  assumes "\<forall>name a. objects c name = Some a \<longrightarrow> attrMD5 a \<noteq> []"
    and "Object_Update c cl k v = (r, c')"
  shows "(\<forall>name a. objects c' name = Some a \<longrightarrow> attrMD5 a \<noteq> []) \<and>
         (\<forall>a. r = Inr a \<longrightarrow> attrMD5 a \<noteq> [])"
  using assms
  by (auto simp: Object_Update_def split: prod.splits if_splits option.splits
      dest!: respond_objects)

lemma Copy_objects: "Copy c src = (r, c') \<Longrightarrow> objects c' = objects c"
  by (auto simp: Copy_def split: File.splits prod.splits if_splits dest!: respond_objects)

lemma Upload_dir: "dir (snd (Upload env c fp p sz h)) = dir c"
  by (auto simp: Upload_def Let_def Attrs_def Copy_def Close_def Object_Update_def
      split: option.splits prod.splits sum.splits if_splits File.splits
      dest!: respond_objects)

lemma Upload_checksums:
  assumes md5: "\<forall>d. RemoteMD5 env d \<noteq> []"
    and inv: "\<forall>name a. objects c name = Some a \<longrightarrow> attrMD5 a \<noteq> []"
    and up: "Upload env c fp p sz h = ((cl, m, uErr), c')"
  shows "(\<forall>name a. objects c' name = Some a \<longrightarrow> attrMD5 a \<noteq> []) \<and>
         (uErr = None \<longrightarrow> cl = Join env (dir c) p \<and> m \<noteq> [])"
proof (cases "Open env fp")
  case None
  with up inv show ?thesis by (auto simp: Upload_def)
next
  case (Some src)
  let ?cl = "Join env (dir c) p"
  obtain r c1 where at: "Attrs c ?cl = (r, c1)" by (cases "Attrs c ?cl")
  from Attrs_result [OF at] have o1: "objects c1 = objects c" by simp
  show ?thesis
  proof (cases r)
    case (Inr a)
    with Attrs_result [OF at] inv have "attrMD5 a \<noteq> []" by auto
    with up Some at Inr inv o1 show ?thesis
      by (auto simp: Upload_def Let_def split: if_splits)
  next
    case (Inl aErr)
    show ?thesis
    proof (cases "aErr = ErrObjectNotExist")
      case False
      with up Some at Inl inv o1 show ?thesis by (auto simp: Upload_def Let_def)
    next
      case True
      obtain r2 c2 where cp: "Copy c1 src = (r2, c2)" by (cases "Copy c1 src")
      from Copy_objects [OF cp] o1 inv have i2: "\<forall>name a. objects c2 name = Some a \<longrightarrow> attrMD5 a \<noteq> []"
        by simp
      show ?thesis
      proof (cases r2)
        case (Inl err)
        with up Some at \<open>r = Inl aErr\<close> True cp i2 show ?thesis
          by (auto simp: Upload_def Let_def)
      next
        case (Inr d)
        obtain r3 c3 where cl: "Close env c2 ?cl d = (r3, c3)" by (cases "Close env c2 ?cl d")
        note i3 = Close_objects [OF md5 i2 cl]
        obtain r4 c4 where ou: "Object_Update c3 ?cl metadataHashKey (encode h) = (r4, c4)"
          by (cases "Object_Update c3 ?cl metadataHashKey (encode h)")
        note i4 = Object_Update_objects [OF i3 ou]
        from up Some at \<open>r = Inl aErr\<close> True cp Inr cl ou i4 show ?thesis
          by (cases r4) (auto simp: Upload_def Let_def)
      qed
    qed
  qed
qed


lemma work_balanced:
  assumes join: "\<forall>p. Join env (dir (cloud i)) p \<noteq> []"
    and md5: "\<forall>d. RemoteMD5 env d \<noteq> []"
    and inv: "\<forall>name a. objects (cloud i) name = Some a \<longrightarrow> attrMD5 a \<noteq> []"
    and bal: "stored_balanced env (pairs (bucket (db i)))"
    and run: "work env i fp sz = (rErr, i')"
  shows "stored_balanced env (pairs (bucket (db i'))) \<and>
         (\<forall>name a. objects (cloud i') name = Some a \<longrightarrow> attrMD5 a \<noteq> []) \<and>
         dir (cloud i') = dir (cloud i)"
proof (cases "Rel env (root i) fp")
  case (Inl err)
  with run inv bal show ?thesis by (auto simp: work_def)
next
  case rel: (Inr p)
  show ?thesis
  proof (cases "computeChecksum env fp sz")
    case (Inl err)
    with run rel inv bal show ?thesis by (auto simp: work_def)
  next
    case sum: (Inr hsum)
    obtain added eid dbpath aErr d1 where
      add: "Add env (db i) p sz hsum = ((added, eid, dbpath, aErr), d1)"
      by (cases "Add env (db i) p sz hsum") auto
    note b1 = Add_balanced [OF bal add]
    obtain cl m uErr c1 where
      up: "Upload env (cloud i) fp p sz hsum = ((cl, m, uErr), c1)"
      by (cases "Upload env (cloud i) fp p sz hsum") auto
    note u = Upload_checksums [OF md5 inv up]
    from Upload_dir [of env "cloud i" fp p sz hsum] up have d1: "dir c1 = dir (cloud i)" by simp
    obtain r2 d2 where
      upd: "Update env d1 sz hsum (\<lambda>e. Inr (e\<lparr>Cloud := cl, MD5 := m\<rparr>)) = (r2, d2)"
      by (cases "Update env d1 sz hsum (\<lambda>e. Inr (e\<lparr>Cloud := cl, MD5 := m\<rparr>))")
    have b2: "stored_balanced env (pairs (bucket d2))" if "uErr = None"
    proof (rule Update_balanced [OF b1 upd])
      fix e e' :: Entry
      assume "Inr (e\<lparr>Cloud := cl, MD5 := m\<rparr>) = (Inr e' :: error + Entry)"
      with that u join show "balanced e'" by (auto simp: balanced_def)
    qed
    obtain r3 d3 where
      ren: "Update env d1 sz hsum (\<lambda>e. Inr (e\<lparr>Path := p\<rparr>)) = (r3, d3)"
      by (cases "Update env d1 sz hsum (\<lambda>e. Inr (e\<lparr>Path := p\<rparr>))")
    have b3: "stored_balanced env (pairs (bucket d3))" if "\<not> added"
    proof (rule Update_balanced [OF b1 ren])
      fix v and e e' :: Entry
      assume g: "Get (bucket d1) (computeKey sz hsum) = Some v" "decodeEntry env v = Inr e"
        and f: "Inr (e\<lparr>Path := p\<rparr>) = (Inr e' :: error + Entry)"
      from that add have "bucket d1 = bucket (db i)"
        using Add_not_added [of env "db i" p sz hsum eid dbpath aErr d1] by simp
      with g Add_cases [OF add] that have "Cloud e \<noteq> [] \<and> MD5 e \<noteq> []" by auto
      with f show "balanced e'" by (auto simp: balanced_def)
    qed
    from run rel sum add up upd ren b1 b2 b3 u inv d1 show ?thesis
      by (auto simp: work_def Let_def split: option.splits if_splits)
  qed
qed

lemma worker_balanced:
  assumes md5: "\<forall>d. RemoteMD5 env d \<noteq> []"
  shows "(\<forall>p. Join env (dir (cloud i)) p \<noteq> []) \<Longrightarrow>
     (\<forall>name a. objects (cloud i) name = Some a \<longrightarrow> attrMD5 a \<noteq> []) \<Longrightarrow>
     stored_balanced env (pairs (bucket (db i))) \<Longrightarrow>
     stored_balanced env (pairs (bucket (db (worker env i wc)))) \<and>
     (\<forall>name a. objects (cloud (worker env i wc)) name = Some a \<longrightarrow> attrMD5 a \<noteq> [])"
proof (induction wc arbitrary: i)
  case Nil
  then show ?case by simp
next
  case (Cons f wc)
  obtain path sz where f: "f = (path, sz)" by (cases f)
  obtain rErr i' where run: "work env i path sz = (rErr, i')"
    by (cases "work env i path sz")
  note w = work_balanced [OF Cons.prems(1) md5 Cons.prems(2) Cons.prems(3) run]
  show ?case
  proof (cases rErr)
    case None
    with run f Cons.IH [of i'] w Cons.prems(1) show ?thesis by simp
  next
    case (Some err)
    with run f Cons.IH [of "i'\<lparr>out := out i' @ [CannotProcess path err]\<rparr>"] w Cons.prems(1)
    show ?thesis by simp
  qed
qed

text \<open>
  C10, as the code has it. The claim fails when a successful upload returns an empty
  checksum: the remote store holds at \<open>bk/a\<close> an object of the size and the digest of
  \<open>/r/a\<close> that has no MD5 (a composite object has none). From the empty store, one run
  over \<open>/r/a\<close> ends with an entry whose \<open>Cloud\<close> is set and whose \<open>MD5\<close> is empty.
\<close>

theorem half_set_entry_reachable:
  "pairs (bucket ex_db_empty) = [] \<and>
   db (worker ex_env
         (ex_walker ex_db_empty (ex_cloud [''bk/a'' \<mapsto> ex_object\<lparr>attrMD5 := []\<rparr>])
            (\<lambda>_. False) [])
         [(''/r/a'', 3)]) = ex_db [5] [] \<and>
   Get (bucket (ex_db [5] [])) (computeKey 3 ex_hash) = Some [5] \<and>
   decodeEntry ex_env [5] = Inr ex_half \<and>
   Cloud ex_half \<noteq> [] \<and> MD5 ex_half = []"
proof -
  let ?c = "ex_cloud [''bk/a'' \<mapsto> ex_object\<lparr>attrMD5 := []\<rparr>]"
  have o: "objects ?c (Join ex_env (dir ?c) ''a'') = Some (ex_object\<lparr>attrMD5 := []\<rparr>)"
    "fst (respond ?c)" "responses ?c = []"
    by (simp_all add: ex_join ex_cloud_def respond_def)
  have a: "attrSize (ex_object\<lparr>attrMD5 := []\<rparr>) = 3"
    "attrMetadata (ex_object\<lparr>attrMD5 := []\<rparr>) metadataHashKey = encode ex_hash"
    by (simp_all add: ex_object_def)
  have "fst (Upload ex_env ?c ''/r/a'' ''a'' 3 ex_hash) = (''bk/a'', [], None)"
    using Upload_same [OF ex_open_a o(1) a o(2)] by (simp add: ex_join)
  moreover have "snd (Upload ex_env ?c ''/r/a'' ''a'' 3 ex_hash) = ?c"
    using ex_open_a o a
    by (simp add: Upload_def Let_def Attrs_def respond_quiet)
  ultimately have up: "Upload ex_env ?c ''/r/a'' ''a'' 3 ex_hash = ((''bk/a'', [], None), ?c)"
    by (simp add: prod_eq_iff)
  have upd: "Update ex_env (ex_db [1] []) 3 ex_hash (\<lambda>e. Inr (e\<lparr>Cloud := ''bk/a'', MD5 := []\<rparr>)) =
      (None, ex_db [5] [])"
    using ex_key_nonempty
    by (simp add: Update_def tx_Update_def Update_tx_def ex_db_def Get_def ex_key_def [symmetric]
        decodeEntry_def encodeAndPut_def Entry_encode_def Put_def ex_env_def ex_half_def
        ex_new_def ex_done_def ex_md5_def ex_other_def ex_moved_def)
  have w: "work ex_env (ex_walker ex_db_empty ?c (\<lambda>_. False) []) ''/r/a'' 3 =
      (None, ex_walker (ex_db [5] []) ?c ((\<lambda>_. False)(1 := True)) [Uploaded ''a''])"
    using ex_rel [of "''a''"]
    by (simp add: work_def ex_walker_def ex_sum ex_run_Add_absent up upd)
  have e: "decodeEntry ex_env [5] = Inr ex_half \<and> Cloud ex_half \<noteq> [] \<and> MD5 ex_half = []"
    by (simp add: decodeEntry_def ex_env_def ex_half_def)
  from w e show ?thesis
    by (simp add: ex_get ex_walker_sel ex_db_empty_def)
qed

text \<open>
  C10, amended. Provided that every successful upload returns a remote path and a checksum
  that are not empty (the join of the backup's directory with a path is never empty, the
  remote store computes a checksum that is not empty, and the objects it already holds
  have one), the worker keeps the store balanced: from a store where every value is the
  encoding of an entry with \<open>Cloud\<close> and \<open>MD5\<close> both empty or both set (the empty
  store is one), after any queue of files every value of the store is again the encoding
  of such an entry; and where decoding gives back what was encoded, every entry read from
  the store has both empty or both set.
\<close>

theorem worker_keeps_balanced:
  assumes "\<forall>p. Join env (dir (cloud i)) p \<noteq> []"
    and "\<forall>d. RemoteMD5 env d \<noteq> []"
    and "\<forall>name a. objects (cloud i) name = Some a \<longrightarrow> attrMD5 a \<noteq> []"
    and "stored_balanced env (pairs (bucket (db i)))"
  shows "stored_balanced env (pairs (bucket (db (worker env i wc)))) \<and>
    ((\<forall>e b. Encode env e = Inr b \<longrightarrow> Decode env b = Inr e) \<longrightarrow>
     (\<forall>k v e. Get (bucket (db (worker env i wc))) k = Some v \<and> decodeEntry env v = Inr e \<longrightarrow>
        ((Cloud e = []) = (MD5 e = []))))"
proof -
  let ?ps = "pairs (bucket (db (worker env i wc)))"
  from worker_balanced [OF assms(2) assms(1) assms(3) assms(4), of wc]
  have b: "stored_balanced env ?ps" by simp
  have "(Cloud e = []) = (MD5 e = [])"
    if rt: "\<forall>e b. Encode env e = Inr b \<longrightarrow> Decode env b = Inr e"
      and g: "Get (bucket (db (worker env i wc))) k = Some v \<and> decodeEntry env v = Inr e"
    for k v e
  proof -
    from g have "(k, v) \<in> set ?ps" by (auto simp: Get_def dest: map_of_SomeD)
    with b obtain e0 where e0: "Entry_encode env e0 = Inr v" "balanced e0"
      by (auto simp: stored_balanced_def)
    from roundtrip_decode [OF rt e0(1)] g have "e = e0" by simp
    with e0 show ?thesis by (simp add: balanced_def)
  qed
  with b show ?thesis by blast
qed

lemma ex_roundtrip: "\<forall>e b. Encode ex_env e = Inr b \<longrightarrow> Decode ex_env b = Inr e"
  by (simp add: ex_env_def)

lemma ex_run_worker:
  "worker ex_env (ex_walker ex_db_empty (ex_cloud Map.empty) (\<lambda>_. False) [])
     [(''/r/a'', 3), (''/r/b'', 3)] =
   ex_walker (ex_db [2] []) (ex_cloud [''bk/a'' \<mapsto> ex_object]) ((\<lambda>_. False)(1 := True))
     [Uploaded ''a'', Duplicate ''/r/b'' ''/r/a'']"
  by (simp add: ex_work_upload ex_work_duplicate)

theorem worker_keeps_balanced_witness:
  "worker ex_env (ex_walker ex_db_empty (ex_cloud Map.empty) (\<lambda>_. False) [])
     [(''/r/a'', 3), (''/r/b'', 3)] =
   ex_walker (ex_db [2] []) (ex_cloud [''bk/a'' \<mapsto> ex_object]) ((\<lambda>_. False)(1 := True))
     [Uploaded ''a'', Duplicate ''/r/b'' ''/r/a''] \<and>
   stored_balanced ex_env (pairs (bucket ex_db_empty)) \<and>
   stored_balanced ex_env (pairs (bucket (ex_db [2] []))) \<and>
   Get (bucket (ex_db [2] [])) (computeKey 3 ex_hash) = Some [2] \<and>
   decodeEntry ex_env [2] = Inr ex_done \<and>
   ((Cloud ex_done = []) = (MD5 ex_done = []))"
proof -
  let ?i = "ex_walker ex_db_empty (ex_cloud Map.empty) (\<lambda>_. False) []"
  have j: "\<forall>p. Join ex_env (dir (cloud ?i)) p \<noteq> []"
    by (simp add: ex_join)
  have m: "\<forall>d. RemoteMD5 ex_env d \<noteq> []"
    by (simp add: ex_env_def)
  have o: "\<forall>name a. objects (cloud ?i) name = Some a \<longrightarrow> attrMD5 a \<noteq> []"
    by (simp add: ex_walker_sel ex_cloud_def)
  have b: "stored_balanced ex_env (pairs (bucket (db ?i)))"
    by (simp add: ex_walker_sel ex_db_empty_def stored_balanced_def)
  note t = worker_keeps_balanced [OF j m o b, of "[(''/r/a'', 3), (''/r/b'', 3)]",
      unfolded ex_run_worker ex_walker_sel]
  from t have "stored_balanced ex_env (pairs (bucket (ex_db [2] [])))" by blast
  moreover from t ex_roundtrip have "(Cloud ex_done = []) = (MD5 ex_done = [])"
    using ex_get(1) [of "[2]" "[]"] ex_codec(1) by blast
  moreover have "stored_balanced ex_env (pairs (bucket ex_db_empty))"
    using b by (simp add: ex_walker_sel)
  moreover note ex_run_worker ex_get(1) [of "[2]" "[]"] ex_codec(1)
  ultimately show ?thesis
    by - (intro conjI, assumption+)
qed

section \<open>Keys stay in order\<close>

text \<open>
  The keys of the bucket are strictly increasing, hence distinct, after every file the
  worker takes: the store changes through \<open>Add\<close> and \<open>Update\<close> only, which write with
  \<open>put_pair\<close>.
\<close>

lemma work_sorted:
  assumes "sorted_wrt (<) (map fst (pairs (bucket (db i))))" and "work env i fp sz = (rErr, i')"
  shows "sorted_wrt (<) (map fst (pairs (bucket (db i'))))"
proof (cases "Rel env (root i) fp")
  case (Inl err)
  with assms show ?thesis by (auto simp: work_def)
next
  case rel: (Inr p)
  show ?thesis
  proof (cases "computeChecksum env fp sz")
    case (Inl err)
    with assms rel show ?thesis by (auto simp: work_def)
  next
    case sum: (Inr hsum)
    obtain added eid dbpath aErr d1 where
      add: "Add env (db i) p sz hsum = ((added, eid, dbpath, aErr), d1)"
      by (cases "Add env (db i) p sz hsum") auto
    from Add_pairs [OF add] assms(1) have s1: "sorted_wrt (<) (map fst (pairs (bucket d1)))"
      by (auto simp: sorted_put_pair)
    have s2: "sorted_wrt (<) (map fst (pairs (bucket (snd (Update env d1 sz hsum fn)))))" for fn
      using Update_pairs [of env d1 sz hsum fn "fst (Update env d1 sz hsum fn)"
          "snd (Update env d1 sz hsum fn)"] s1
      by (auto simp: sorted_put_pair)
    from assms(2) rel sum add s1 s2 show ?thesis
      by (auto simp: work_def Let_def split: option.splits if_splits prod.splits)
  qed
qed

lemma worker_sorted:
  "sorted_wrt (<) (map fst (pairs (bucket (db i)))) \<Longrightarrow>
     sorted_wrt (<) (map fst (pairs (bucket (db (worker env i wc)))))"
proof (induction wc arbitrary: i)
  case Nil
  then show ?case by simp
next
  case (Cons f wc)
  obtain path sz where f: "f = (path, sz)" by (cases f)
  obtain rErr i' where run: "work env i path sz = (rErr, i')"
    by (cases "work env i path sz")
  note w = work_sorted [OF Cons.prems run]
  show ?case
  proof (cases rErr)
    case None
    with run f Cons.IH [of i'] w show ?thesis by simp
  next
    case (Some err)
    with run f Cons.IH [of "i'\<lparr>out := out i' @ [CannotProcess path err]\<rparr>"] w
    show ?thesis by simp
  qed
qed

lemma worker_distinct_keys:
  "pairs (bucket (db i)) = [] \<Longrightarrow> distinct (map fst (pairs (bucket (db (worker env i wc)))))"
  using worker_sorted [of i env wc] strict_sorted_iff by fastforce

text \<open>
  What the worker does with an error that \<open>work\<close> returns: it prints the file and the
  error and goes on with the rest of the queue.
\<close>

lemma worker_reports:
  "work env i path sz = (Some err, i') \<Longrightarrow>
     worker env i ((path, sz) # wc) =
       worker env (i'\<lparr>out := out i' @ [CannotProcess path err]\<rparr>) wc"
  by simp

section \<open>The four outcomes for one file\<close>

lemma Update_effect:
  assumes "Update env d sz h fn = (r, d')"
  shows "(\<forall>k. k \<noteq> computeKey sz h \<longrightarrow> Get (bucket d') k = Get (bucket d) k) \<and>
    sequence (bucket d') = sequence (bucket d) \<and>
    (Get (bucket d') (computeKey sz h) = Get (bucket d) (computeKey sz h) \<or>
     (\<exists>v e e' b. Get (bucket d) (computeKey sz h) = Some v \<and> decodeEntry env v = Inr e \<and>
        fn e = Inr e' \<and> Entry_encode env e' = Inr b \<and>
        Get (bucket d') (computeKey sz h) = Some b))"
  using Update_cases [OF assms] by (cases r) auto

lemma Update_written:
  assumes "Get (bucket d) (computeKey sz h) = Some v" "decodeEntry env v = Inr e"
    "fn e = Inr e'" "Entry_encode env e' = Inr b" "length b \<le> 2147483646" "length h = 32"
    "commits d = []"
  shows "Get (bucket (snd (Update env d sz h fn))) (computeKey sz h) = Some b"
  using Update_done [of d sz h v env e fn e' b] assms by (simp add: Get_def map_of_put_pair)

lemma Upload_success_object:
  assumes up: "Upload env c fp p sz h = ((cl, m, None), c')"
  shows "cl = Join env (dir c) p \<and>
    (\<exists>a. objects c' cl = Some a \<and> attrMD5 a = m \<and>
         attrMetadata a metadataHashKey = encode h)"
proof (cases "Open env fp")
  case None
  with up show ?thesis by (simp add: Upload_def)
next
  case (Some src)
  let ?cl = "Join env (dir c) p"
  obtain r c1 where at: "Attrs c ?cl = (r, c1)" by (cases "Attrs c ?cl")
  from Attrs_result [OF at] have o1: "objects c1 = objects c" by simp
  show ?thesis
  proof (cases r)
    case (Inr a)
    with Attrs_result [OF at] have "objects c ?cl = Some a" by simp
    with up Some at Inr o1 show ?thesis
      by (auto simp: Upload_def Let_def split: if_splits)
  next
    case (Inl aErr)
    show ?thesis
    proof (cases "aErr = ErrObjectNotExist")
      case False
      with up Some at Inl show ?thesis by (auto simp: Upload_def Let_def)
    next
      case True
      obtain r2 c2 where cp: "Copy c1 src = (r2, c2)" by (cases "Copy c1 src")
      show ?thesis
      proof (cases r2)
        case (Inl err)
        with up Some at \<open>r = Inl aErr\<close> True cp show ?thesis
          by (auto simp: Upload_def Let_def)
      next
        case (Inr d)
        obtain r3 c3 where cl: "Close env c2 ?cl d = (r3, c3)" by (cases "Close env c2 ?cl d")
        obtain r4 c4 where ou: "Object_Update c3 ?cl metadataHashKey (encode h) = (r4, c4)"
          by (cases "Object_Update c3 ?cl metadataHashKey (encode h)")
        from ou have "\<forall>a. r4 = Inr a \<longrightarrow>
            objects c4 ?cl = Some a \<and> attrMetadata a metadataHashKey = encode h"
          by (auto simp: Object_Update_def split: prod.splits if_splits option.splits)
        with up Some at \<open>r = Inl aErr\<close> True cp Inr cl ou show ?thesis
          by (cases r4) (auto simp: Upload_def Let_def)
      qed
    qed
  qed
qed


text \<open>
  C1. \<open>work\<close>, once the relative path and the fingerprint are computed and \<open>Add\<close> has
  returned \<open>(added, eid, dbpath)\<close> with no error and left the store \<open>d1\<close>: the id is
  marked as touched, no key but the content key changes, and exactly one of four things
  happens, decided by \<open>added\<close> and by whether the id was touched before.
  (1) \<open>added\<close> and not touched: \<open>Upload\<close> is called. If it fails its error is returned
  and the store is as \<open>Add\<close> left it. If it succeeds, the remote store holds at the
  object path an object with the checksum returned and with the digest attached, the
  upload is printed, and \<open>Update\<close> is called with the mutator that sets \<open>Cloud\<close> and
  \<open>MD5\<close> to the results of the upload: the value of the content key is then the
  encoding of the entry \<open>Add\<close> left there with \<open>Cloud\<close> and \<open>MD5\<close> set to them, or
  it is what \<open>Add\<close> left when that update fails; it is that encoding when no commit
  fails and the entry can be encoded and written. When no object exists at the object
  path, the file is readable and the remote calls go through, the upload succeeds and
  creates the object from the bytes of the file.
  (2) Touched before, whatever \<open>added\<close> is: the duplicate is printed, the remote store
  is not called and the store is as \<open>Add\<close> left it, which is as it was when the key was
  already in it.
  (3) Not \<open>added\<close>, not touched, and the stored path is not the relative path: the
  rename is printed, the remote store is not called, and \<open>Update\<close> is called with the
  mutator that sets \<open>Path\<close> only: the value of the content key is then the encoding of
  the stored entry with \<open>Path\<close> set to the relative path, or what it was when that
  update fails; it is that encoding when no commit fails and the entry can be encoded and
  written.
  (4) Not \<open>added\<close>, not touched, and the stored path is the relative path: nothing is
  printed, the remote store is not called and the bucket is as it was.
\<close>

theorem work_classifies:
  assumes rel: "Rel env (root i) fp = Inr p"
    and sum: "computeChecksum env fp sz = Inr hsum"
    and add: "Add env (db i) p sz hsum = ((added, eid, dbpath, None), d1)"
    and run: "work env i fp sz = (rErr, i')"
  shows "touched i' = (touched i)(eid := True) \<and> root i' = root i \<and>
    (\<forall>k. k \<noteq> computeKey sz hsum \<longrightarrow> Get (bucket (db i')) k = Get (bucket d1) k) \<and>
    sequence (bucket (db i')) = sequence (bucket d1) \<and>
    (added \<and> \<not> touched i eid \<longrightarrow>
       cloud i' = snd (Upload env (cloud i) fp p sz hsum) \<and>
       (case fst (Upload env (cloud i) fp p sz hsum) of
          (cloudPath, md5, uErr) \<Rightarrow>
            (case uErr of
               Some err \<Rightarrow>
                 rErr = Some (Wrap ''cannot upload %s to cloud storage'' err) \<and>
                 db i' = d1 \<and> out i' = out i
             | None \<Rightarrow>
                 rErr = None \<and>
                 db i' = snd (Update env d1 sz hsum
                   (\<lambda>e. Inr (e\<lparr>Cloud := cloudPath, MD5 := md5\<rparr>))) \<and>
                 out i' = out i @ [Uploaded p] \<and>
                 cloudPath = Join env (dir (cloud i)) p \<and>
                 (\<exists>a. objects (cloud i') cloudPath = Some a \<and> attrMD5 a = md5 \<and>
                      attrMetadata a metadataHashKey = encode hsum) \<and>
                 (Get (bucket (db i')) (computeKey sz hsum) = Get (bucket d1) (computeKey sz hsum) \<or>
                  (\<exists>v e b. Get (bucket d1) (computeKey sz hsum) = Some v \<and>
                     decodeEntry env v = Inr e \<and>
                     Entry_encode env (e\<lparr>Cloud := cloudPath, MD5 := md5\<rparr>) = Inr b \<and>
                     Get (bucket (db i')) (computeKey sz hsum) = Some b)) \<and>
                 (\<forall>v e b. commits d1 = [] \<and> length hsum = 32 \<and>
                     Get (bucket d1) (computeKey sz hsum) = Some v \<and>
                     decodeEntry env v = Inr e \<and>
                     Entry_encode env (e\<lparr>Cloud := cloudPath, MD5 := md5\<rparr>) = Inr b \<and>
                     length b \<le> 2147483646 \<longrightarrow>
                     Get (bucket (db i')) (computeKey sz hsum) = Some b))) \<and>
       (\<forall>d. Open env fp = Some (Regular d) \<and>
            objects (cloud i) (Join env (dir (cloud i)) p) = None \<and>
            responses (cloud i) = [] \<longrightarrow>
            rErr = None \<and>
            objects (cloud i') = (objects (cloud i))(Join env (dir (cloud i)) p \<mapsto>
              \<lparr>attrSize = int (length d),
               attrMetadata = (\<lambda>k. [])(metadataHashKey := encode hsum),
               attrMD5 = RemoteMD5 env d\<rparr>))) \<and>
    (touched i eid \<longrightarrow>
       rErr = None \<and> cloud i' = cloud i \<and> db i' = d1 \<and>
       out i' = out i @ [Duplicate fp (Join env (root i) dbpath)] \<and>
       (Get (bucket (db i)) (computeKey sz hsum) = None \<or> bucket (db i') = bucket (db i))) \<and>
    (\<not> added \<and> \<not> touched i eid \<and> p \<noteq> dbpath \<longrightarrow>
       rErr = None \<and> cloud i' = cloud i \<and>
       db i' = snd (Update env d1 sz hsum (\<lambda>e. Inr (e\<lparr>Path := p\<rparr>))) \<and>
       out i' = out i @ [Renamed (Join env (root i) dbpath) p] \<and>
       (Get (bucket (db i')) (computeKey sz hsum) = Get (bucket d1) (computeKey sz hsum) \<or>
        (\<exists>v e b. Get (bucket d1) (computeKey sz hsum) = Some v \<and>
           decodeEntry env v = Inr e \<and>
           Entry_encode env (e\<lparr>Path := p\<rparr>) = Inr b \<and>
           Get (bucket (db i')) (computeKey sz hsum) = Some b)) \<and>
       (\<forall>v e b. commits d1 = [] \<and> length hsum = 32 \<and>
           Get (bucket d1) (computeKey sz hsum) = Some v \<and>
           decodeEntry env v = Inr e \<and>
           Entry_encode env (e\<lparr>Path := p\<rparr>) = Inr b \<and>
           length b \<le> 2147483646 \<longrightarrow>
           Get (bucket (db i')) (computeKey sz hsum) = Some b)) \<and>
    (\<not> added \<and> \<not> touched i eid \<and> p = dbpath \<longrightarrow>
       rErr = None \<and> cloud i' = cloud i \<and> db i' = d1 \<and> out i' = out i \<and>
       bucket (db i') = bucket (db i))"
proof -
  let ?key = "computeKey sz hsum"
  obtain cl m uErr c1 where up: "Upload env (cloud i) fp p sz hsum = ((cl, m, uErr), c1)"
    by (cases "Upload env (cloud i) fp p sz hsum") auto
  let ?fu = "\<lambda>e. Inr (e\<lparr>Cloud := cl, MD5 := m\<rparr>) :: error + Entry"
  let ?fr = "\<lambda>e. Inr (e\<lparr>Path := p\<rparr>) :: error + Entry"
  let ?d2 = "snd (Update env d1 sz hsum ?fu)"
  let ?d3 = "snd (Update env d1 sz hsum ?fr)"
  have dup: "Get (bucket (db i)) ?key = None \<or> bucket d1 = bucket (db i)"
    using Add_present [OF add] by (cases "Get (bucket (db i)) ?key") auto
  have same: "\<not> added \<longrightarrow> bucket d1 = bucket (db i)"
    using Add_not_added [of env "db i" p sz hsum eid dbpath None d1] add by auto
  have e2: "(\<forall>k. k \<noteq> ?key \<longrightarrow> Get (bucket ?d2) k = Get (bucket d1) k) \<and>
      sequence (bucket ?d2) = sequence (bucket d1) \<and>
      (Get (bucket ?d2) ?key = Get (bucket d1) ?key \<or>
       (\<exists>v e b. Get (bucket d1) ?key = Some v \<and> decodeEntry env v = Inr e \<and>
          Entry_encode env (e\<lparr>Cloud := cl, MD5 := m\<rparr>) = Inr b \<and>
          Get (bucket ?d2) ?key = Some b))"
    using Update_effect [of env d1 sz hsum ?fu "fst (Update env d1 sz hsum ?fu)" ?d2]
    by auto
  have e3: "(\<forall>k. k \<noteq> ?key \<longrightarrow> Get (bucket ?d3) k = Get (bucket d1) k) \<and>
      sequence (bucket ?d3) = sequence (bucket d1) \<and>
      (Get (bucket ?d3) ?key = Get (bucket d1) ?key \<or>
       (\<exists>v e b. Get (bucket d1) ?key = Some v \<and> decodeEntry env v = Inr e \<and>
          Entry_encode env (e\<lparr>Path := p\<rparr>) = Inr b \<and>
          Get (bucket ?d3) ?key = Some b))"
    using Update_effect [of env d1 sz hsum ?fr "fst (Update env d1 sz hsum ?fr)" ?d3]
    by auto
  have g2: "Get (bucket ?d2) ?key = Some b"
    if "commits d1 = [] \<and> length hsum = 32 \<and> Get (bucket d1) ?key = Some v \<and>
        decodeEntry env v = Inr e \<and>
        Entry_encode env (e\<lparr>Cloud := cl, MD5 := m\<rparr>) = Inr b \<and> length b \<le> 2147483646"
    for v e b
    using that Update_written [of d1 sz hsum v env e ?fu "e\<lparr>Cloud := cl, MD5 := m\<rparr>" b]
    by simp
  have g3: "Get (bucket ?d3) ?key = Some b"
    if "commits d1 = [] \<and> length hsum = 32 \<and> Get (bucket d1) ?key = Some v \<and>
        decodeEntry env v = Inr e \<and>
        Entry_encode env (e\<lparr>Path := p\<rparr>) = Inr b \<and> length b \<le> 2147483646"
    for v e b
    using that Update_written [of d1 sz hsum v env e ?fr "e\<lparr>Path := p\<rparr>" b]
    by simp
  have obj: "cl = Join env (dir (cloud i)) p \<and>
      (\<exists>a. objects c1 cl = Some a \<and> attrMD5 a = m \<and>
           attrMetadata a metadataHashKey = encode hsum)"
    if "uErr = None"
    using Upload_success_object [of env "cloud i" fp p sz hsum cl m c1] up that by blast
  have fresh: "uErr = None \<and>
      objects c1 = (objects (cloud i))(Join env (dir (cloud i)) p \<mapsto>
        \<lparr>attrSize = int (length d),
         attrMetadata = (\<lambda>k. [])(metadataHashKey := encode hsum),
         attrMD5 = RemoteMD5 env d\<rparr>)"
    if "Open env fp = Some (Regular d) \<and>
        objects (cloud i) (Join env (dir (cloud i)) p) = None \<and> responses (cloud i) = []"
    for d
    using that Upload_fresh [of env fp d "cloud i" p sz hsum] up by simp
  let ?i1 = "i\<lparr>db := d1, touched := (touched i)(eid := True)\<rparr>"
  consider
    (fail) err where "added" "\<not> touched i eid" "uErr = Some err"
  | (ok) "added" "\<not> touched i eid" "uErr = None"
  | (dupl) "touched i eid"
  | (ren) "\<not> added" "\<not> touched i eid" "p \<noteq> dbpath"
  | (noop) "\<not> added" "\<not> touched i eid" "p = dbpath"
    by (cases uErr) auto
  then show ?thesis
  proof cases
    case fail
    with run rel sum add up have
      r: "rErr = Some (Wrap ''cannot upload %s to cloud storage'' err)" "i' = ?i1\<lparr>cloud := c1\<rparr>"
      by (auto simp: work_def Let_def)
    from fail fresh have nf: "\<not> (Open env fp = Some (Regular d) \<and>
        objects (cloud i) (Join env (dir (cloud i)) p) = None \<and> responses (cloud i) = [])" for d
      by auto
    from r fail up nf show ?thesis by simp
  next
    case ok
    with run rel sum add up have
      r: "rErr = None"
        "i' = ?i1\<lparr>cloud := c1, db := ?d2, out := out i @ [Uploaded p]\<rparr>"
      by (auto simp: work_def Let_def)
    from ok obj have o: "cl = Join env (dir (cloud i)) p"
      "\<exists>a. objects c1 cl = Some a \<and> attrMD5 a = m \<and> attrMetadata a metadataHashKey = encode hsum"
      by auto
    have f: "objects c1 = (objects (cloud i))(Join env (dir (cloud i)) p \<mapsto>
        \<lparr>attrSize = int (length d),
         attrMetadata = (\<lambda>k. [])(metadataHashKey := encode hsum),
         attrMD5 = RemoteMD5 env d\<rparr>)"
      if "Open env fp = Some (Regular d) \<and>
        objects (cloud i) (Join env (dir (cloud i)) p) = None \<and> responses (cloud i) = []" for d
      using fresh that by simp
    from e2 have a: "\<forall>k. k \<noteq> ?key \<longrightarrow> Get (bucket ?d2) k = Get (bucket d1) k"
      "sequence (bucket ?d2) = sequence (bucket d1)"
      "Get (bucket ?d2) ?key = Get (bucket d1) ?key \<or>
       (\<exists>v e b. Get (bucket d1) ?key = Some v \<and> decodeEntry env v = Inr e \<and>
          Entry_encode env (e\<lparr>Cloud := cl, MD5 := m\<rparr>) = Inr b \<and>
          Get (bucket ?d2) ?key = Some b)"
      by blast+
    have b: "\<forall>v e b. commits d1 = [] \<and> length hsum = 32 \<and> Get (bucket d1) ?key = Some v \<and>
        decodeEntry env v = Inr e \<and>
        Entry_encode env (e\<lparr>Cloud := cl, MD5 := m\<rparr>) = Inr b \<and> length b \<le> 2147483646 \<longrightarrow>
        Get (bucket ?d2) ?key = Some b"
      using g2 by blast
    from r ok up o a b f show ?thesis by simp
  next
    case dupl
    with run rel sum add have r: "rErr = None"
      "i' = ?i1\<lparr>out := out i @ [Duplicate fp (Join env (root i) dbpath)]\<rparr>"
      by (auto simp: work_def Let_def split: prod.splits option.splits)
    from r dupl dup show ?thesis by auto
  next
    case ren
    with run rel sum add have r: "rErr = None"
      "i' = ?i1\<lparr>out := out i @ [Renamed (Join env (root i) dbpath) p], db := ?d3\<rparr>"
      by (auto simp: work_def Let_def)
    from e3 have a: "\<forall>k. k \<noteq> ?key \<longrightarrow> Get (bucket ?d3) k = Get (bucket d1) k"
      "sequence (bucket ?d3) = sequence (bucket d1)"
      "Get (bucket ?d3) ?key = Get (bucket d1) ?key \<or>
       (\<exists>v e b. Get (bucket d1) ?key = Some v \<and> decodeEntry env v = Inr e \<and>
          Entry_encode env (e\<lparr>Path := p\<rparr>) = Inr b \<and>
          Get (bucket ?d3) ?key = Some b)"
      by blast+
    have b: "\<forall>v e b. commits d1 = [] \<and> length hsum = 32 \<and> Get (bucket d1) ?key = Some v \<and>
        decodeEntry env v = Inr e \<and>
        Entry_encode env (e\<lparr>Path := p\<rparr>) = Inr b \<and> length b \<le> 2147483646 \<longrightarrow>
        Get (bucket ?d3) ?key = Some b"
      using g3 by blast
    from r ren a b show ?thesis by simp
  next
    case noop
    with run rel sum add have r: "rErr = None" "i' = ?i1"
      by (auto simp: work_def Let_def)
    from r noop same show ?thesis by simp
  qed
qed


lemma ex_new_facts:
  "decodeEntry ex_env [1] = Inr ex_new" "ex_new\<lparr>Cloud := ''bk/a'', MD5 := ex_md5\<rparr> = ex_done"
  "Entry_encode ex_env ex_done = Inr [2]" "Cloud ex_done = ''bk/a''" "MD5 ex_done = ex_md5"
  by (simp_all add: decodeEntry_def Entry_encode_def ex_env_def ex_new_def ex_done_def)

theorem work_classifies_witness:
  "work ex_env (ex_walker ex_db_empty (ex_cloud Map.empty) (\<lambda>_. False) []) ''/r/a'' 3 =
     (None, ex_walker (ex_db [2] []) (ex_cloud [''bk/a'' \<mapsto> ex_object])
        ((\<lambda>_. False)(1 := True)) [Uploaded ''a'']) \<and>
   Add ex_env ex_db_empty ''a'' 3 ex_hash = ((True, 1, [], None), ex_db [1] []) \<and>
   Upload ex_env (ex_cloud Map.empty) ''/r/a'' ''a'' 3 ex_hash =
     ((''bk/a'', ex_md5, None), ex_cloud [''bk/a'' \<mapsto> ex_object]) \<and>
   Get (bucket (ex_db [1] [])) (computeKey 3 ex_hash) = Some [1] \<and>
   decodeEntry ex_env [1] = Inr ex_new \<and>
   Entry_encode ex_env (ex_new\<lparr>Cloud := ''bk/a'', MD5 := ex_md5\<rparr>) = Inr [2] \<and>
   Get (bucket (ex_db [2] [])) (computeKey 3 ex_hash) = Some [2] \<and>
   decodeEntry ex_env [2] = Inr ex_done \<and>
   Cloud ex_done = ''bk/a'' \<and> MD5 ex_done = ex_md5 \<and>
   work ex_env (ex_walker (ex_db [2] []) (ex_cloud [''bk/a'' \<mapsto> ex_object])
        ((\<lambda>_. False)(1 := True)) []) ''/r/b'' 3 =
     (None, ex_walker (ex_db [2] []) (ex_cloud [''bk/a'' \<mapsto> ex_object])
        ((\<lambda>_. False)(1 := True)) [Duplicate ''/r/b'' ''/r/a'']) \<and>
   work ex_env (ex_walker (ex_db [2] []) (ex_cloud [''bk/a'' \<mapsto> ex_object])
        (\<lambda>_. False) []) ''/r/b'' 3 =
     (None, ex_walker (ex_db [3] []) (ex_cloud [''bk/a'' \<mapsto> ex_object])
        ((\<lambda>_. False)(1 := True)) [Renamed ''/r/a'' ''b'']) \<and>
   Entry_encode ex_env (ex_done\<lparr>Path := ''b''\<rparr>) = Inr [3] \<and>
   Get (bucket (ex_db [3] [])) (computeKey 3 ex_hash) = Some [3] \<and>
   work ex_env (ex_walker (ex_db [2] []) (ex_cloud [''bk/a'' \<mapsto> ex_object])
        (\<lambda>_. False) []) ''/r/a'' 3 =
     (None, ex_walker (ex_db [2] []) (ex_cloud [''bk/a'' \<mapsto> ex_object])
        ((\<lambda>_. False)(1 := True)) [])"
proof -
  let ?c = "ex_cloud [''bk/a'' \<mapsto> ex_object]"
  have r: "Rel ex_env (root (ex_walker d c t ou)) ''/r/a'' = Inr ''a''"
    "Rel ex_env (root (ex_walker d c t ou)) ''/r/b'' = Inr ''b''" for d c t ou
    using ex_rel [of "''a''"] ex_rel [of "''b''"] by (simp_all add: ex_walker_sel)
  have a0: "Add ex_env (db (ex_walker ex_db_empty c t ou)) ''a'' 3 ex_hash =
      ((True, 1, [], None), ex_db [1] [])" for c t ou
    by (simp add: ex_walker_sel ex_run_Add_absent)
  have a1: "Add ex_env (db (ex_walker (ex_db [2] []) c t ou)) path 3 ex_hash =
      ((False, 1, ''a'', None), ex_db [2] [])" for c t ou path
    by (simp add: ex_walker_sel ex_run_Add_again)
  have e: "Entry_encode ex_env (ex_new\<lparr>Cloud := ''bk/a'', MD5 := ex_md5\<rparr>) = Inr [2]"
    "Entry_encode ex_env (ex_done\<lparr>Path := ''b''\<rparr>) = Inr [3]"
    by (simp_all add: ex_new_facts ex_done_facts ex_codec)
  have l: "length [2 :: byte] \<le> 2147483646" "length [3 :: byte] \<le> 2147483646"
    by simp_all
  from work_classifies [OF r(1) ex_sum(1) a0 ex_work_upload]
  have 1: "Get (bucket (ex_db [2] [])) (computeKey 3 ex_hash) = Some [2]"
    using ex_get(1) [of "[1]" "[]"] ex_get(2) [of "[1]" "[]"] ex_new_facts(1) e(1) l(1)
      ex_done_facts(5)
    by (simp add: ex_walker_sel ex_run_Upload ex_join ex_run_Update_done)
  from work_classifies [OF r(2) ex_sum(2) a1 ex_work_rename]
  have 3: "Get (bucket (ex_db [3] [])) (computeKey 3 ex_hash) = Some [3]"
    using ex_get(1) [of "[2]" "[]"] ex_get(2) [of "[2]" "[]"] ex_codec(1) e(2) l(2)
      ex_done_facts(5)
    by (simp add: ex_walker_sel ex_run_Update)
  from work_classifies [OF r(2) ex_sum(2) a1 ex_work_duplicate [of "[]"]]
  have 2: "bucket (ex_db [2] []) = bucket (ex_db [2] [])"
    by (simp add: ex_walker_sel)
  from work_classifies [OF r(1) ex_sum(1) a1 ex_work_nothing]
  have 4: "bucket (ex_db [2] []) = bucket (ex_db [2] [])"
    by (simp add: ex_walker_sel)
  note ex_work_upload ex_run_Add_absent ex_run_Upload ex_get(1) [of "[1]" "[]"] ex_new_facts(1)
    e(1) 1 ex_codec(1) ex_new_facts(4) ex_new_facts(5) ex_work_duplicate [of "[]", simplified]
    ex_work_rename e(2) 3 ex_work_nothing
  then show ?thesis
    by - (intro conjI, assumption+)
qed

end
